theory Spec2Isabelle
  imports Main "HOL-Library.Word"
begin

unbundle bit_operations_syntax

section \<open>Python values used by the module\<close>

text \<open>
  The module \<^verbatim>\<open>src/__init__.py\<close> works on Python \<^verbatim>\<open>str\<close>, \<^verbatim>\<open>bytes\<close> and \<^verbatim>\<open>int\<close> values.
  A \<^verbatim>\<open>bytes\<close> object is a list of 8-bit words. A \<^verbatim>\<open>str\<close> is a \<open>string\<close>, every
  \<open>char\<close> standing for the code point of the same number (code points 0 to 255, so the
  non-ASCII characters of the model are those from 128 to 255; code points from 256 on, and
  the lone surrogates that \<^verbatim>\<open>encode('utf-8')\<close> refuses, are outside the model). A Python
  \<^verbatim>\<open>int\<close> is an \<open>int\<close>. An exception that leaves a function is the \<open>Inl\<close> branch of its
  result.
\<close>

type_synonym byte = "8 word"
type_synonym bytes = "byte list"

datatype error =
    ValueError string
  | OverflowError
  | UnicodeEncodeError
  | UnicodeDecodeError

definition byte_of_char :: "char \<Rightarrow> byte" where
  "byte_of_char c = of_char c"

definition char_of_byte :: "byte \<Rightarrow> char" where
  "char_of_byte b = char_of (unat b)"

text \<open>\<^verbatim>\<open>s.encode('ascii')\<close>: raises on the first character that is not ASCII.\<close>

definition str_encode_ascii :: "string \<Rightarrow> error + bytes" where
  "str_encode_ascii s =
     (if list_all (\<lambda>c. (of_char c :: nat) < 128) s then Inr (map byte_of_char s)
      else Inl UnicodeEncodeError)"

text \<open>\<^verbatim>\<open>b.decode('ascii')\<close>: raises on the first byte above 127.\<close>

definition bytes_decode_ascii :: "bytes \<Rightarrow> error + string" where
  "bytes_decode_ascii bs =
     (if list_all (\<lambda>b. unat b < 128) bs then Inr (map char_of_byte bs)
      else Inl UnicodeDecodeError)"

text \<open>
  \<^verbatim>\<open>x.rstrip(ch)\<close> with a one-character argument, on \<^verbatim>\<open>bytes\<close> and on \<^verbatim>\<open>str\<close> alike:
  the trailing run of \<open>ch\<close> is removed.
\<close>

definition rstrip :: "'a \<Rightarrow> 'a list \<Rightarrow> 'a list" where
  "rstrip ch xs = rev (dropWhile (\<lambda>x. x = ch) (rev xs))"

text \<open>
  \<^verbatim>\<open>s.encode('utf-8')\<close> on the code points of the model: one byte below 128, two bytes
  from 128 to 255. It cannot fail there.
\<close>

definition utf8_of_char :: "char \<Rightarrow> bytes" where
  "utf8_of_char c =
     (let n = (of_char c :: nat)
      in if n < 128 then [of_nat n] else [of_nat (192 + n div 64), of_nat (128 + n mod 64)])"

definition str_encode_utf8 :: "string \<Rightarrow> bytes" where
  "str_encode_utf8 s = concat (map utf8_of_char s)"

section \<open>The operating system's random bytes\<close>

text \<open>
  \<^verbatim>\<open>os.urandom(size)\<close> reads the system's entropy source. The source is an unknown sequence
  of bytes, passed explicitly: a call for \<open>n\<close> bytes takes the next \<open>n\<close> bytes and returns the rest of
  the sequence with them. The size is first converted to a C \<^verbatim>\<open>ssize_t\<close> (64 bits): a size
  that does not fit raises \<^verbatim>\<open>OverflowError\<close>. A negative size that fits raises
  \<^verbatim>\<open>ValueError("negative argument not allowed")\<close>. A size that fits but exceeds the memory of
  the machine raises \<^verbatim>\<open>MemoryError\<close> at a point that depends on the machine; that is outside
  the model, and no claim below says that a call with a length above 128 returns.
\<close>

type_synonym entropy = "nat \<Rightarrow> byte"

definition PY_SSIZE_T_MAX :: int where
  "PY_SSIZE_T_MAX = 9223372036854775807"

definition urandom :: "int \<Rightarrow> entropy \<Rightarrow> error + (bytes \<times> entropy)" where
  "urandom n src =
     (if n < - PY_SSIZE_T_MAX - 1 \<or> PY_SSIZE_T_MAX < n then Inl OverflowError
      else if n < 0 then Inl (ValueError ''negative argument not allowed'')
      else Inr (map src [0..<nat n], \<lambda>i. src (i + nat n)))"

section \<open>\<^verbatim>\<open>base64.urlsafe_b64encode\<close>\<close>

definition b64_table :: string where
  "b64_table = ''ABCDEFGHIJKLMNOPQRSTUVWXYZabcdefghijklmnopqrstuvwxyz0123456789+/''"

definition b64_digit :: "nat \<Rightarrow> byte" where
  "b64_digit i = byte_of_char (b64_table ! (i mod 64))"

definition b64_pad :: byte where
  "b64_pad = 61"

text \<open>
  The standard encoder: three bytes give four digits of six bits each; a last group of one
  or two bytes gives two or three digits and is filled up to four characters with \<open>=\<close>.
\<close>

fun b64encode :: "bytes \<Rightarrow> bytes" where
  "b64encode (a # b # c # rest) =
     b64_digit (unat a div 4)
     # b64_digit (unat a mod 4 * 16 + unat b div 16)
     # b64_digit (unat b mod 16 * 4 + unat c div 64)
     # b64_digit (unat c mod 64)
     # b64encode rest"
| "b64encode [a, b] =
     [b64_digit (unat a div 4),
      b64_digit (unat a mod 4 * 16 + unat b div 16),
      b64_digit (unat b mod 16 * 4),
      b64_pad]"
| "b64encode [a] =
     [b64_digit (unat a div 4),
      b64_digit (unat a mod 4 * 16),
      b64_pad,
      b64_pad]"
| "b64encode [] = []"

text \<open>\<^verbatim>\<open>urlsafe_b64encode(s) = b64encode(s).translate(...)\<close>: \<open>+\<close> becomes \<open>-\<close>, \<open>/\<close> becomes \<open>_\<close>.\<close>

definition urlsafe_translate :: "byte \<Rightarrow> byte" where
  "urlsafe_translate x = (if x = 43 then 45 else if x = 47 then 95 else x)"

definition urlsafe_b64encode :: "bytes \<Rightarrow> bytes" where
  "urlsafe_b64encode s = map urlsafe_translate (b64encode s)"

section \<open>\<^verbatim>\<open>hashlib.sha256\<close>\<close>

text \<open>SHA-256 as in FIPS 180-4, on 32-bit words.\<close>

type_synonym word32 = "32 word"

definition rotr :: "nat \<Rightarrow> word32 \<Rightarrow> word32" where
  "rotr n x = drop_bit n x OR push_bit (32 - n) x"

definition sha_ch :: "word32 \<Rightarrow> word32 \<Rightarrow> word32 \<Rightarrow> word32" where
  "sha_ch x y z = (x AND y) XOR (NOT x AND z)"

definition sha_maj :: "word32 \<Rightarrow> word32 \<Rightarrow> word32 \<Rightarrow> word32" where
  "sha_maj x y z = (x AND y) XOR (x AND z) XOR (y AND z)"

definition bsig0 :: "word32 \<Rightarrow> word32" where
  "bsig0 x = rotr 2 x XOR rotr 13 x XOR rotr 22 x"

definition bsig1 :: "word32 \<Rightarrow> word32" where
  "bsig1 x = rotr 6 x XOR rotr 11 x XOR rotr 25 x"

definition ssig0 :: "word32 \<Rightarrow> word32" where
  "ssig0 x = rotr 7 x XOR rotr 18 x XOR drop_bit 3 x"

definition ssig1 :: "word32 \<Rightarrow> word32" where
  "ssig1 x = rotr 17 x XOR rotr 19 x XOR drop_bit 10 x"

text \<open>
  The round constants, each beside the prime it comes from: the constant of \<open>p\<close> is the
  first thirty-two bits of the fractional part of the cube root of \<open>p\<close>, for the first
  sixty-four primes. The initial hash value is made in the same way from the square roots
  of the first eight primes.
\<close>

definition round_table :: "(nat \<times> word32) list" where
  "round_table =
     [(2, 0x428a2f98), (3, 0x71374491), (5, 0xb5c0fbcf), (7, 0xe9b5dba5),
      (11, 0x3956c25b), (13, 0x59f111f1), (17, 0x923f82a4), (19, 0xab1c5ed5),
      (23, 0xd807aa98), (29, 0x12835b01), (31, 0x243185be), (37, 0x550c7dc3),
      (41, 0x72be5d74), (43, 0x80deb1fe), (47, 0x9bdc06a7), (53, 0xc19bf174),
      (59, 0xe49b69c1), (61, 0xefbe4786), (67, 0x0fc19dc6), (71, 0x240ca1cc),
      (73, 0x2de92c6f), (79, 0x4a7484aa), (83, 0x5cb0a9dc), (89, 0x76f988da),
      (97, 0x983e5152), (101, 0xa831c66d), (103, 0xb00327c8), (107, 0xbf597fc7),
      (109, 0xc6e00bf3), (113, 0xd5a79147), (127, 0x06ca6351), (131, 0x14292967),
      (137, 0x27b70a85), (139, 0x2e1b2138), (149, 0x4d2c6dfc), (151, 0x53380d13),
      (157, 0x650a7354), (163, 0x766a0abb), (167, 0x81c2c92e), (173, 0x92722c85),
      (179, 0xa2bfe8a1), (181, 0xa81a664b), (191, 0xc24b8b70), (193, 0xc76c51a3),
      (197, 0xd192e819), (199, 0xd6990624), (211, 0xf40e3585), (223, 0x106aa070),
      (227, 0x19a4c116), (229, 0x1e376c08), (233, 0x2748774c), (239, 0x34b0bcb5),
      (241, 0x391c0cb3), (251, 0x4ed8aa4a), (257, 0x5b9cca4f), (263, 0x682e6ff3),
      (269, 0x748f82ee), (271, 0x78a5636f), (277, 0x84c87814), (281, 0x8cc70208),
      (283, 0x90befffa), (293, 0xa4506ceb), (307, 0xbef9a3f7), (311, 0xc67178f2)]"

definition K256 :: "word32 list" where
  "K256 = map snd round_table"

type_synonym hstate =
  "word32 \<times> word32 \<times> word32 \<times> word32 \<times> word32 \<times> word32 \<times> word32 \<times> word32"

definition H256 :: hstate where
  "H256 = (0x6a09e667, 0xbb67ae85, 0x3c6ef372, 0xa54ff53a,
           0x510e527f, 0x9b05688c, 0x1f83d9ab, 0x5be0cd19)"

text \<open>
  \<open>is_frac_root k p w\<close>: the word \<open>w\<close> holds the first thirty-two binary places of the
  \<open>k\<close>-th root of \<open>p\<close>, for a root below eight: with the integer part \<open>i\<close> in front,
  \<open>r = i * 2 ^ 32 + w\<close> is the greatest number whose \<open>k\<close>-th power is at most
  \<open>p * 2 ^ (32 * k)\<close>.
\<close>

definition is_frac_root :: "nat \<Rightarrow> nat \<Rightarrow> word32 \<Rightarrow> bool" where
  "is_frac_root k p w =
     list_ex (\<lambda>i. (i * 2 ^ 32 + unat w) ^ k \<le> p * 2 ^ (32 * k)
                  \<and> p * 2 ^ (32 * k) < (i * 2 ^ 32 + unat w + 1) ^ k)
       [0, 1, 2, 3, 4, 5, 6, 7]"

text \<open>The word of four big-endian bytes, and the big-endian bytes of a word.\<close>

definition be_word32 :: "byte \<Rightarrow> byte \<Rightarrow> byte \<Rightarrow> byte \<Rightarrow> word32" where
  "be_word32 a b c d =
     push_bit 24 (ucast a) OR push_bit 16 (ucast b) OR push_bit 8 (ucast c) OR ucast d"

fun words_of_bytes :: "bytes \<Rightarrow> word32 list" where
  "words_of_bytes (a # b # c # d # rest) = be_word32 a b c d # words_of_bytes rest"
| "words_of_bytes _ = []"

definition bytes_of_word32 :: "word32 \<Rightarrow> bytes" where
  "bytes_of_word32 x = [ucast (drop_bit 24 x), ucast (drop_bit 16 x), ucast (drop_bit 8 x), ucast x]"

definition bytes_of_word64 :: "64 word \<Rightarrow> bytes" where
  "bytes_of_word64 x =
     [ucast (drop_bit 56 x), ucast (drop_bit 48 x), ucast (drop_bit 40 x), ucast (drop_bit 32 x),
      ucast (drop_bit 24 x), ucast (drop_bit 16 x), ucast (drop_bit 8 x), ucast x]"

text \<open>
  Padding: the byte \<open>0x80\<close>, zero bytes up to 56 modulo 64, and the length of the message
  in bits as a 64-bit big-endian word.
\<close>

definition sha256_pad :: "bytes \<Rightarrow> bytes" where
  "sha256_pad m =
     m @ [0x80] @ replicate ((119 - length m mod 64) mod 64) 0
       @ bytes_of_word64 (of_nat (8 * length m))"

text \<open>The message schedule: sixteen words of the block, extended to sixty-four.\<close>

fun extend_schedule :: "nat \<Rightarrow> word32 list \<Rightarrow> word32 list" where
  "extend_schedule 0 w = w"
| "extend_schedule (Suc n) w =
     extend_schedule n
       (w @ [ssig1 (w ! (length w - 2)) + w ! (length w - 7)
             + ssig0 (w ! (length w - 15)) + w ! (length w - 16)])"

fun sha256_round :: "hstate \<Rightarrow> word32 \<times> word32 \<Rightarrow> hstate" where
  "sha256_round (a, b, c, d, e, f, g, h) (k, w) =
     (let t1 = h + bsig1 e + sha_ch e f g + k + w;
          t2 = bsig0 a + sha_maj a b c
      in (t1 + t2, a, b, c, d + t1, e, f, g))"

fun hstate_add :: "hstate \<Rightarrow> hstate \<Rightarrow> hstate" where
  "hstate_add (a, b, c, d, e, f, g, h) (a', b', c', d', e', f', g', h') =
     (a + a', b + b', c + c', d + d', e + e', f + f', g + g', h + h')"

definition sha256_compress :: "hstate \<Rightarrow> word32 list \<Rightarrow> hstate" where
  "sha256_compress hs blk =
     hstate_add hs (foldl sha256_round hs (zip K256 (extend_schedule 48 blk)))"

fun sha256_blocks :: "nat \<Rightarrow> hstate \<Rightarrow> word32 list \<Rightarrow> hstate" where
  "sha256_blocks 0 hs ws = hs"
| "sha256_blocks (Suc n) hs ws = sha256_blocks n (sha256_compress hs (take 16 ws)) (drop 16 ws)"

fun hstate_bytes :: "hstate \<Rightarrow> bytes" where
  "hstate_bytes (a, b, c, d, e, f, g, h) = concat (map bytes_of_word32 [a, b, c, d, e, f, g, h])"

definition sha256 :: "bytes \<Rightarrow> bytes" where
  "sha256 m =
     (let ws = words_of_bytes (sha256_pad m)
      in hstate_bytes (sha256_blocks (length ws div 16) H256 ws))"

section \<open>\<^verbatim>\<open>urllib.parse.urlencode\<close>\<close>

text \<open>
  \<^verbatim>\<open>urlencode(query)\<close> on a dictionary of \<^verbatim>\<open>str\<close> keys and values, with its default
  arguments: every key and value goes through \<^verbatim>\<open>quote_plus\<close>, the pairs are written
  \<open>key=value\<close> in the order of the dictionary and joined with \<open>&\<close>. The dictionary
  is the list of its items in insertion order.
\<close>

definition always_safe :: string where
  "always_safe = ''ABCDEFGHIJKLMNOPQRSTUVWXYZabcdefghijklmnopqrstuvwxyz0123456789_.-~''"

definition hex_digits :: string where
  "hex_digits = ''0123456789ABCDEF''"

definition hex_upper :: "nat \<Rightarrow> char" where
  "hex_upper i = hex_digits ! (i mod 16)"

text \<open>The quoter of one byte: \<^verbatim>\<open>chr(b) if b in safe else '%{:02X}'.format(b)\<close>.\<close>

definition quoter :: "string \<Rightarrow> byte \<Rightarrow> string" where
  "quoter safe b =
     (if b \<in> set (map byte_of_char safe) then [char_of_byte b]
      else [CHR ''%'', hex_upper (unat b div 16), hex_upper (unat b mod 16)])"

definition quote_from_bytes :: "bytes \<Rightarrow> string \<Rightarrow> string" where
  "quote_from_bytes bs safe = concat (map (quoter (always_safe @ safe)) bs)"

definition quote :: "string \<Rightarrow> string \<Rightarrow> string" where
  "quote s safe = quote_from_bytes (str_encode_utf8 s) safe"

text \<open>
  \<^verbatim>\<open>quote_plus(s, safe='')\<close>: without a space in \<open>s\<close> it is \<^verbatim>\<open>quote(s, '')\<close>; with one,
  the space is kept by \<^verbatim>\<open>quote(s, ' ')\<close> and then replaced by \<open>+\<close>.
\<close>

definition quote_plus :: "string \<Rightarrow> string" where
  "quote_plus s =
     (if CHR '' '' \<notin> set s then quote s []
      else map (\<lambda>c. if c = CHR '' '' then CHR ''+'' else c) (quote s '' ''))"

fun join :: "'a list \<Rightarrow> 'a list list \<Rightarrow> 'a list" where
  "join sep [] = []"
| "join sep [x] = x"
| "join sep (x # y # ys) = x @ sep @ join sep (y # ys)"

definition urlencode :: "(string \<times> string) list \<Rightarrow> string" where
  "urlencode query = join ''&'' (map (\<lambda>(k, v). quote_plus k @ ''='' @ quote_plus v) query)"

section \<open>The class \<^verbatim>\<open>PKCE\<close>\<close>

text \<open>
  An instance holds the four attributes set by \<^verbatim>\<open>__init__\<close>. The methods \<^verbatim>\<open>_code_v\<close>,
  \<^verbatim>\<open>_code_c\<close>, \<^verbatim>\<open>_s\<close>, \<^verbatim>\<open>_n\<close> and \<^verbatim>\<open>_gen_p\<close> are \<open>PKCE_code_v\<close>, \<open>PKCE_code_c\<close>,
  \<open>PKCE_s\<close>, \<open>PKCE_n\<close> and \<open>PKCE_gen_p\<close>. A method that calls \<^verbatim>\<open>os.urandom\<close> takes the
  entropy source and returns what is left of it.
\<close>

record PKCE =
  client_id :: string
  redirect_uri :: string
  scope :: string
  code_challenge_method :: string

definition PKCE_init :: "string \<Rightarrow> string \<Rightarrow> string \<Rightarrow> string \<Rightarrow> PKCE" where
  "PKCE_init cid ruri sc m =
     \<lparr>client_id = cid, redirect_uri = ruri, scope = sc, code_challenge_method = m\<rparr>"

definition PKCE_code_v :: "PKCE \<Rightarrow> int \<Rightarrow> entropy \<Rightarrow> error + (string \<times> entropy)" where
  "PKCE_code_v self len src =
     (if \<not> (32 \<le> len \<and> len \<le> 128)
      then Inl (ValueError ''Code verifier length must be between 43 and 128 characters.'')
      else case urandom len src of
             Inl e \<Rightarrow> Inl e
           | Inr (rnd, src') \<Rightarrow>
               (case bytes_decode_ascii (rstrip b64_pad (urlsafe_b64encode rnd)) of
                  Inl e \<Rightarrow> Inl e
                | Inr code_verifier \<Rightarrow> Inr (code_verifier, src')))"

definition PKCE_code_c :: "PKCE \<Rightarrow> string \<Rightarrow> error + string" where
  "PKCE_code_c self code_verifier =
     (if code_challenge_method self = ''S256'' then
        (case str_encode_ascii code_verifier of
           Inl e \<Rightarrow> Inl e
         | Inr b \<Rightarrow> bytes_decode_ascii (rstrip b64_pad (urlsafe_b64encode (sha256 b))))
      else if code_challenge_method self = ''plain'' then Inr code_verifier
      else Inl (ValueError
                 ''Unsupported code_challenge_method. Choose either 'S256' or 'plain'.''))"

definition PKCE_s :: "PKCE \<Rightarrow> int \<Rightarrow> entropy \<Rightarrow> error + (string \<times> entropy)" where
  "PKCE_s self len src =
     (case urandom len src of
        Inl e \<Rightarrow> Inl e
      | Inr (rnd, src') \<Rightarrow>
          (case bytes_decode_ascii (urlsafe_b64encode rnd) of
             Inl e \<Rightarrow> Inl e
           | Inr t \<Rightarrow> Inr (rstrip CHR ''='' t, src')))"

definition PKCE_n :: "PKCE \<Rightarrow> int \<Rightarrow> entropy \<Rightarrow> error + (string \<times> entropy)" where
  "PKCE_n self len src =
     (case urandom len src of
        Inl e \<Rightarrow> Inl e
      | Inr (rnd, src') \<Rightarrow>
          (case bytes_decode_ascii (urlsafe_b64encode rnd) of
             Inl e \<Rightarrow> Inl e
           | Inr t \<Rightarrow> Inr (rstrip CHR ''='' t, src')))"

text \<open>The dictionary \<^verbatim>\<open>data\<close> of \<^verbatim>\<open>_gen_p\<close>: seven distinct keys, in the order written.\<close>

definition payload_data ::
  "PKCE \<Rightarrow> string \<Rightarrow> string \<Rightarrow> string \<Rightarrow> (string \<times> string) list" where
  "payload_data self code_challenge state nonce =
     [(''client_id'', client_id self),
      (''scope'', scope self),
      (''redirect_uri'', redirect_uri self),
      (''code_challenge'', code_challenge),
      (''code_challenge_method'', code_challenge_method self),
      (''state'', state),
      (''nonce'', nonce)]"

definition PKCE_gen_p ::
  "PKCE \<Rightarrow> int \<Rightarrow> int \<Rightarrow> int \<Rightarrow> entropy \<Rightarrow> error + ((string \<times> string) \<times> entropy)" where
  "PKCE_gen_p self code_verifier_length state_length nonce_length src =
     (case PKCE_code_v self code_verifier_length src of
        Inl e \<Rightarrow> Inl e
      | Inr (code_verifier, src1) \<Rightarrow>
     (case PKCE_code_c self code_verifier of
        Inl e \<Rightarrow> Inl e
      | Inr code_challenge \<Rightarrow>
     (case PKCE_s self state_length src1 of
        Inl e \<Rightarrow> Inl e
      | Inr (state, src2) \<Rightarrow>
     (case PKCE_n self nonce_length src2 of
        Inl e \<Rightarrow> Inl e
      | Inr (nonce, src3) \<Rightarrow>
          Inr ((urlencode (payload_data self code_challenge state nonce), code_verifier),
               src3)))))"

text \<open>
  The module-level function \<^verbatim>\<open>pkce\<close>, the entry point: it builds the instance and calls
  \<^verbatim>\<open>_gen_p\<close>. Its keyword defaults are \<^verbatim>\<open>"S256"\<close>, 32, 16 and 16. It is decorated with
  \<^verbatim>\<open>@staticmethod\<close> outside any class; the model is the function as Python 3.10 and later
  call it (before 3.10 a \<^verbatim>\<open>staticmethod\<close> object cannot be called).
\<close>

definition pkce ::
  "string \<Rightarrow> string \<Rightarrow> string \<Rightarrow> string \<Rightarrow> int \<Rightarrow> int \<Rightarrow> int \<Rightarrow> entropy
     \<Rightarrow> error + ((string \<times> string) \<times> entropy)" where
  "pkce cid ruri sc m code_verifier_length state_length nonce_length src =
     PKCE_gen_p (PKCE_init cid ruri sc m) code_verifier_length state_length nonce_length src"

section \<open>The encodings as the specification words them\<close>

text \<open>
  Unpadded URL-safe base64 (RFC 4648, section 5, without the padding), written directly:
  the digits come from the alphabet \<open>A-Z a-z 0-9 - _\<close>, a last group of one or two bytes
  gives two or three digits, and no \<open>=\<close> is ever produced. The methods of the class do
  not compute it this way: they encode with padding, translate two characters and strip.
\<close>

definition b64url_table :: string where
  "b64url_table = ''ABCDEFGHIJKLMNOPQRSTUVWXYZabcdefghijklmnopqrstuvwxyz0123456789-_''"

definition b64url_digit :: "nat \<Rightarrow> char" where
  "b64url_digit i = b64url_table ! (i mod 64)"

fun base64url_nopad :: "bytes \<Rightarrow> string" where
  "base64url_nopad (a # b # c # rest) =
     b64url_digit (unat a div 4)
     # b64url_digit (unat a mod 4 * 16 + unat b div 16)
     # b64url_digit (unat b mod 16 * 4 + unat c div 64)
     # b64url_digit (unat c mod 64)
     # base64url_nopad rest"
| "base64url_nopad [a, b] =
     [b64url_digit (unat a div 4),
      b64url_digit (unat a mod 4 * 16 + unat b div 16),
      b64url_digit (unat b mod 16 * 4)]"
| "base64url_nopad [a] =
     [b64url_digit (unat a div 4),
      b64url_digit (unat a mod 4 * 16)]"
| "base64url_nopad [] = []"

definition is_b64url_char :: "char \<Rightarrow> bool" where
  "is_b64url_char c = (c \<in> set b64url_table)"

definition is_ascii :: "char \<Rightarrow> bool" where
  "is_ascii c = ((of_char c :: nat) < 128)"

text \<open>
  Reading a form-encoded payload back, as a server receiving it does: the text is cut at
  every \<open>&\<close>, each field at its first \<open>=\<close>, and in both halves \<open>+\<close> stands for a space
  and \<open>%XY\<close> for the byte with the hexadecimal digits \<open>XY\<close>; the bytes are then read as
  UTF-8. The payload is the serialization of an ordered list of fields when reading it
  back gives that list.
\<close>

definition hex_value :: "char \<Rightarrow> nat option" where
  "hex_value c = map_of (zip hex_digits [0..<16]) c"

fun unquote_to_bytes :: "string \<Rightarrow> bytes" where
  "unquote_to_bytes [] = []"
| "unquote_to_bytes (c # cs) =
     (if c = CHR ''%'' then
        (case cs of
           h # l # rest \<Rightarrow>
             (case (hex_value h, hex_value l) of
                (Some a, Some b) \<Rightarrow> of_nat (16 * a + b) # unquote_to_bytes rest
              | _ \<Rightarrow> byte_of_char c # unquote_to_bytes cs)
         | _ \<Rightarrow> byte_of_char c # unquote_to_bytes cs)
      else byte_of_char c # unquote_to_bytes cs)"

fun utf8_decode :: "bytes \<Rightarrow> string option" where
  "utf8_decode [] = Some []"
| "utf8_decode (b # bs) =
     (if unat b < 128 then map_option ((#) (char_of_byte b)) (utf8_decode bs)
      else (case bs of
              [] \<Rightarrow> None
            | b2 # bs' \<Rightarrow>
                if (b = 194 \<or> b = 195) \<and> 128 \<le> unat b2 \<and> unat b2 < 192
                then map_option ((#) (char_of ((unat b - 192) * 64 + (unat b2 - 128))))
                       (utf8_decode bs')
                else None))"

definition unquote_plus :: "string \<Rightarrow> string option" where
  "unquote_plus s =
     utf8_decode (unquote_to_bytes (map (\<lambda>c. if c = CHR ''+'' then CHR '' '' else c) s))"

fun split_on :: "'a \<Rightarrow> 'a list \<Rightarrow> 'a list list" where
  "split_on sep [] = [[]]"
| "split_on sep (x # xs) =
     (if x = sep then [] # split_on sep xs
      else (case split_on sep xs of [] \<Rightarrow> [[x]] | y # ys \<Rightarrow> (x # y) # ys))"

definition decode_field :: "string \<Rightarrow> (string \<times> string) option" where
  "decode_field f =
     (case (unquote_plus (takeWhile (\<lambda>c. c \<noteq> CHR ''='') f),
            unquote_plus (drop 1 (dropWhile (\<lambda>c. c \<noteq> CHR ''='') f))) of
        (Some k, Some v) \<Rightarrow> Some (k, v)
      | _ \<Rightarrow> None)"

definition form_decode :: "string \<Rightarrow> (string \<times> string) list option" where
  "form_decode p = those (map decode_field (split_on CHR ''&'' p))"

section \<open>A sample run\<close>

text \<open>
  The thirty-two octets of the example in RFC 7636, appendix B, repeated for ever, as an
  entropy source for concrete runs; and what the caller of a method that draws random bytes
  sees of its result: the value or the exception, without the entropy left over.
\<close>

definition rfc7636_octets :: bytes where
  "rfc7636_octets =
     [116, 24, 223, 180, 151, 153, 224, 37, 79, 250, 96, 125, 216, 173, 187, 186,
      22, 212, 37, 77, 105, 214, 191, 240, 91, 88, 5, 88, 83, 132, 141, 121]"

definition rfc7636_entropy :: entropy where
  "rfc7636_entropy i = rfc7636_octets ! (i mod 32)"

definition returned :: "error + ('a \<times> entropy) \<Rightarrow> error + 'a" where
  "returned r = map_sum id fst r"

section \<open>Characters and bytes\<close>

lemma byte_of_char_of_nat: "byte_of_char c = of_nat (of_char c)"
  by (simp add: byte_of_char_def of_nat_of_char)

lemma unat_byte_of_char: "unat (byte_of_char c) = of_char c"
proof -
  have "(of_char c :: nat) < 256" by simp
  then show ?thesis by (simp add: byte_of_char_of_nat unat_of_nat)
qed

lemma char_of_byte_of_char [simp]: "char_of_byte (byte_of_char c) = c"
  by (simp add: char_of_byte_def unat_byte_of_char)

lemma byte_of_char_of_byte [simp]: "byte_of_char (char_of_byte b) = b"
proof -
  have "unat b < 256" using unsigned_less [of b] by simp
  then show ?thesis by (simp add: char_of_byte_def byte_of_char_of_nat)
qed

lemma encode_ascii_ok:
  "list_all is_ascii s \<Longrightarrow> str_encode_ascii s = Inr (map byte_of_char s)"
  by (simp add: str_encode_ascii_def list_all_iff is_ascii_def)

lemma encode_ascii_fails:
  "\<not> list_all is_ascii s \<Longrightarrow> str_encode_ascii s = Inl UnicodeEncodeError"
  by (simp add: str_encode_ascii_def list_all_iff is_ascii_def)

lemma decode_ascii_of_chars:
  "list_all is_ascii s \<Longrightarrow> bytes_decode_ascii (map byte_of_char s) = Inr s"
  by (simp add: bytes_decode_ascii_def is_ascii_def list_all_iff unat_byte_of_char map_idI)

lemma rstrip_append_replicate:
  assumes "ch \<notin> set xs"
  shows "rstrip ch (xs @ replicate k ch) = xs"
proof -
  have "dropWhile (\<lambda>x. x = ch) (replicate k ch @ rev xs) = dropWhile (\<lambda>x. x = ch) (rev xs)"
    by (rule dropWhile_append2) simp
  also have "\<dots> = rev xs"
    using assms by (cases "rev xs") (auto simp: dropWhile_eq_self_iff)
  finally show ?thesis by (simp add: rstrip_def)
qed

section \<open>The padded encoder against the unpadded one\<close>

lemma digits_agree_table:
  "list_all (\<lambda>i. urlsafe_translate (b64_digit i) = byte_of_char (b64url_digit i)) [0..<64]"
  by code_simp

lemma digit_agree: "urlsafe_translate (b64_digit i) = byte_of_char (b64url_digit i)"
proof -
  have "i mod 64 \<in> set [0..<64]" by simp
  with digits_agree_table
  have "urlsafe_translate (b64_digit (i mod 64)) = byte_of_char (b64url_digit (i mod 64))"
    unfolding list_all_iff by blast
  then show ?thesis by (simp add: b64_digit_def b64url_digit_def)
qed

lemma pad_translate: "urlsafe_translate b64_pad = b64_pad"
  by (simp add: urlsafe_translate_def b64_pad_def)

lemma b64url_digit_in_table: "b64url_digit i \<in> set b64url_table"
proof -
  have "length b64url_table = 64" by (simp add: b64url_table_def)
  then show ?thesis by (simp add: b64url_digit_def)
qed

lemma table_no_pad: "CHR ''='' \<notin> set b64url_table"
  by (simp add: b64url_table_def)

lemma table_ascii: "list_all is_ascii b64url_table"
  by (simp add: b64url_table_def is_ascii_def)

lemma byte_of_pad: "byte_of_char CHR ''='' = b64_pad"
  by (simp add: byte_of_char_def b64_pad_def)

text \<open>The padded output is the unpadded text followed by zero, one or two \<open>=\<close>.\<close>

lemma urlsafe_b64encode_split:
  "urlsafe_b64encode bs =
     map byte_of_char (base64url_nopad bs @ replicate ((3 - length bs mod 3) mod 3) CHR ''='')"
proof (induction bs rule: b64encode.induct)
  case (1 a b c rest)
  then show ?case by (simp add: urlsafe_b64encode_def digit_agree)
next
  case (2 a b)
  show ?case by (simp add: urlsafe_b64encode_def digit_agree pad_translate byte_of_pad)
next
  case (3 a)
  show ?case
    by (simp add: urlsafe_b64encode_def digit_agree pad_translate numeral_2_eq_2 byte_of_pad)
next
  case 4
  show ?case by (simp add: urlsafe_b64encode_def)
qed

lemma nopad_chars: "set (base64url_nopad bs) \<subseteq> set b64url_table"
  by (induction bs rule: base64url_nopad.induct) (simp_all add: b64url_digit_in_table)

lemma nopad_length: "length (base64url_nopad bs) = (4 * length bs + 2) div 3"
  by (induction bs rule: base64url_nopad.induct) simp_all

lemma nopad_no_pad: "CHR ''='' \<notin> set (base64url_nopad bs)"
  using nopad_chars [of bs] table_no_pad by blast

lemma nopad_b64url: "list_all is_b64url_char (base64url_nopad bs)"
  using nopad_chars [of bs] by (auto simp: list_all_iff is_b64url_char_def)

lemma nopad_ascii: "list_all is_ascii (base64url_nopad bs)"
  using nopad_chars [of bs] table_ascii by (auto simp: list_all_iff)

text \<open>Both orders of stripping and decoding used by the class give the unpadded text.\<close>

lemma strip_then_decode:
  "bytes_decode_ascii (rstrip b64_pad (urlsafe_b64encode bs)) = Inr (base64url_nopad bs)"
proof -
  have "b64_pad \<notin> set (map byte_of_char (base64url_nopad bs))"
  proof
    assume "b64_pad \<in> set (map byte_of_char (base64url_nopad bs))"
    then obtain c where c: "c \<in> set (base64url_nopad bs)" "byte_of_char c = b64_pad" by auto
    from c(2) have "char_of_byte (byte_of_char c) = char_of_byte (byte_of_char CHR ''='')"
      by (simp only: byte_of_pad)
    then have "c = CHR ''=''" by simp
    with c(1) nopad_no_pad show False by blast
  qed
  then have "rstrip b64_pad (map byte_of_char (base64url_nopad bs)
                 @ replicate ((3 - length bs mod 3) mod 3) b64_pad)
             = map byte_of_char (base64url_nopad bs)"
    by (rule rstrip_append_replicate)
  then have "rstrip b64_pad (urlsafe_b64encode bs) = map byte_of_char (base64url_nopad bs)"
    by (simp add: urlsafe_b64encode_split byte_of_pad)
  then show ?thesis by (simp add: decode_ascii_of_chars nopad_ascii)
qed

lemma decode_then_strip:
  "\<exists>t. bytes_decode_ascii (urlsafe_b64encode bs) = Inr t
       \<and> rstrip CHR ''='' t = base64url_nopad bs"
proof -
  let ?t = "base64url_nopad bs @ replicate ((3 - length bs mod 3) mod 3) CHR ''=''"
  have "list_all is_ascii ?t"
    using nopad_ascii [of bs] by (auto simp: list_all_iff is_ascii_def)
  then have "bytes_decode_ascii (urlsafe_b64encode bs) = Inr ?t"
    by (simp only: urlsafe_b64encode_split decode_ascii_of_chars)
  moreover have "rstrip CHR ''='' ?t = base64url_nopad bs"
    by (rule rstrip_append_replicate) (rule nopad_no_pad)
  ultimately show ?thesis by blast
qed

section \<open>The constants of the digest, and its length\<close>

text \<open>
  The tables above are the ones of the standard: every round constant is the fractional part
  of the cube root of its prime, every word of the initial hash value that of the square
  root of its prime.
\<close>

lemma round_table_roots: "list_all (\<lambda>(p, w). is_frac_root 3 p w) round_table"
  by (simp add: round_table_def is_frac_root_def)

lemma H256_roots:
  "(case H256 of (a, b, c, d, e, f, g, h) \<Rightarrow>
      list_all (\<lambda>(p, w). is_frac_root 2 p w)
        [(2, a), (3, b), (5, c), (7, d), (11, e), (13, f), (17, g), (19, h)])"
  by (simp add: H256_def is_frac_root_def)

lemma K256_length: "length K256 = 64"
  by (simp add: K256_def round_table_def)


lemma hstate_bytes_length: "length (hstate_bytes hs) = 32"
  by (cases hs rule: hstate_bytes.cases) (simp add: bytes_of_word32_def)

lemma sha256_length: "length (sha256 m) = 32"
  by (simp add: sha256_def Let_def hstate_bytes_length)

section \<open>The methods of the class on their good and bad inputs\<close>

lemma urandom_ok:
  "0 \<le> n \<Longrightarrow> n \<le> PY_SSIZE_T_MAX \<Longrightarrow>
     urandom n src = Inr (map src [0..<nat n], \<lambda>i. src (i + nat n))"
  by (simp add: urandom_def PY_SSIZE_T_MAX_def)

lemma urandom_negative:
  "- PY_SSIZE_T_MAX - 1 \<le> n \<Longrightarrow> n < 0 \<Longrightarrow>
     urandom n src = Inl (ValueError ''negative argument not allowed'')"
  by (simp add: urandom_def PY_SSIZE_T_MAX_def)

lemma urandom_fails:
  "n < 0 \<or> PY_SSIZE_T_MAX < n \<Longrightarrow> \<exists>e. urandom n src = Inl e"
  by (auto simp: urandom_def)

lemma urandom_Inr:
  "urandom n src = Inr (rnd, src') \<Longrightarrow>
     0 \<le> n \<and> n \<le> PY_SSIZE_T_MAX \<and> rnd = map src [0..<nat n] \<and> src' = (\<lambda>i. src (i + nat n))"
  by (auto simp: urandom_def split: if_splits)

lemma small_fits: "n \<le> 128 \<Longrightarrow> n \<le> PY_SSIZE_T_MAX"
  by (simp add: PY_SSIZE_T_MAX_def)

lemma code_v_ok:
  assumes "32 \<le> n" "n \<le> 128"
  shows "PKCE_code_v self n src
           = Inr (base64url_nopad (map src [0..<nat n]), \<lambda>i. src (i + nat n))"
proof -
  from assms have "0 \<le> n" "n \<le> PY_SSIZE_T_MAX" by (simp_all add: small_fits)
  then show ?thesis
    using assms by (simp add: PKCE_code_v_def urandom_ok strip_then_decode)
qed

lemma code_v_rejects:
  "\<not> (32 \<le> n \<and> n \<le> 128) \<Longrightarrow>
     PKCE_code_v self n src
       = Inl (ValueError ''Code verifier length must be between 43 and 128 characters.'')"
  by (simp add: PKCE_code_v_def)

lemma s_ok:
  assumes "0 \<le> n" "n \<le> PY_SSIZE_T_MAX"
  shows "PKCE_s self n src = Inr (base64url_nopad (map src [0..<nat n]), \<lambda>i. src (i + nat n))"
proof -
  obtain t where t: "bytes_decode_ascii (urlsafe_b64encode (map src [0..<nat n])) = Inr t"
    "rstrip CHR ''='' t = base64url_nopad (map src [0..<nat n])"
    using decode_then_strip by blast
  show ?thesis using assms t by (simp add: PKCE_s_def urandom_ok)
qed

lemma s_negative:
  "- PY_SSIZE_T_MAX - 1 \<le> n \<Longrightarrow> n < 0 \<Longrightarrow>
     PKCE_s self n src = Inl (ValueError ''negative argument not allowed'')"
  by (simp add: PKCE_s_def urandom_negative)

lemma s_fails:
  assumes "n < 0 \<or> PY_SSIZE_T_MAX < n"
  shows "\<exists>e. PKCE_s self n src = Inl e"
proof -
  from urandom_fails [OF assms] obtain e where "urandom n src = Inl e" by blast
  then show ?thesis by (simp add: PKCE_s_def)
qed

text \<open>Whatever the state generator returns is the unpadded text of the bytes it drew.\<close>

lemma s_Inr:
  assumes "PKCE_s self n src = Inr (t, src')"
  shows "0 \<le> n \<and> n \<le> PY_SSIZE_T_MAX \<and> t = base64url_nopad (map src [0..<nat n])"
proof (cases "0 \<le> n \<and> n \<le> PY_SSIZE_T_MAX")
  case True
  with assms show ?thesis by (simp add: s_ok)
next
  case False
  then have "n < 0 \<or> PY_SSIZE_T_MAX < n" by linarith
  from s_fails [OF this, of self src] obtain e where "PKCE_s self n src = Inl e" by blast
  with assms show ?thesis by simp
qed

lemma n_ok:
  assumes "0 \<le> n" "n \<le> PY_SSIZE_T_MAX"
  shows "PKCE_n self n src = Inr (base64url_nopad (map src [0..<nat n]), \<lambda>i. src (i + nat n))"
proof -
  obtain t where t: "bytes_decode_ascii (urlsafe_b64encode (map src [0..<nat n])) = Inr t"
    "rstrip CHR ''='' t = base64url_nopad (map src [0..<nat n])"
    using decode_then_strip by blast
  show ?thesis using assms t by (simp add: PKCE_n_def urandom_ok)
qed

lemma n_negative:
  "- PY_SSIZE_T_MAX - 1 \<le> n \<Longrightarrow> n < 0 \<Longrightarrow>
     PKCE_n self n src = Inl (ValueError ''negative argument not allowed'')"
  by (simp add: PKCE_n_def urandom_negative)

lemma n_fails:
  assumes "n < 0 \<or> PY_SSIZE_T_MAX < n"
  shows "\<exists>e. PKCE_n self n src = Inl e"
proof -
  from urandom_fails [OF assms] obtain e where "urandom n src = Inl e" by blast
  then show ?thesis by (simp add: PKCE_n_def)
qed

lemma n_Inr:
  assumes "PKCE_n self n src = Inr (t, src')"
  shows "0 \<le> n \<and> n \<le> PY_SSIZE_T_MAX \<and> t = base64url_nopad (map src [0..<nat n])"
proof (cases "0 \<le> n \<and> n \<le> PY_SSIZE_T_MAX")
  case True
  with assms show ?thesis by (simp add: n_ok)
next
  case False
  then have "n < 0 \<or> PY_SSIZE_T_MAX < n" by linarith
  from n_fails [OF this, of self src] obtain e where "PKCE_n self n src = Inl e" by blast
  with assms show ?thesis by simp
qed

text \<open>
  With the method \<open>S256\<close> the challenge of an ASCII verifier is the unpadded encoding of
  its digest; a verifier with a character outside ASCII makes \<^verbatim>\<open>encode('ascii')\<close> raise.
\<close>

lemma code_c_S256:
  assumes "code_challenge_method self = ''S256''"
  shows "PKCE_code_c self v =
           (if list_all is_ascii v then Inr (base64url_nopad (sha256 (map byte_of_char v)))
            else Inl UnicodeEncodeError)"
  using assms by (simp add: PKCE_code_c_def encode_ascii_ok encode_ascii_fails strip_then_decode)

section \<open>Form encoding can be read back\<close>

lemma hex_table: "list_all (\<lambda>d. hex_value (hex_upper d) = Some d) [0..<16]"
  by code_simp

lemma hex_value_upper: "d < 16 \<Longrightarrow> hex_value (hex_upper d) = Some d"
  using hex_table unfolding list_all_iff by simp

lemma hex_upper_in: "hex_upper d \<in> set hex_digits"
proof -
  have "d mod 16 < length hex_digits" by (simp add: hex_digits_def)
  then show ?thesis unfolding hex_upper_def by (rule nth_mem)
qed

lemma unquote_quoter:
  assumes "CHR ''%'' \<notin> set safe"
  shows "unquote_to_bytes (quoter safe b @ rest) = b # unquote_to_bytes rest"
proof (cases "b \<in> set (map byte_of_char safe)")
  case True
  then obtain c where c: "c \<in> set safe" "b = byte_of_char c" by auto
  with assms have "c \<noteq> CHR ''%''" by auto
  with True c show ?thesis by (simp add: quoter_def)
next
  case False
  have "unat b < 256" using unsigned_less [of b] by simp
  then have "unat b div 16 < 16" by simp
  then have h: "hex_value (hex_upper (unat b div 16)) = Some (unat b div 16)"
    by (rule hex_value_upper)
  have l: "hex_value (hex_upper (unat b mod 16)) = Some (unat b mod 16)"
    by (rule hex_value_upper) simp
  have "(of_nat (16 * (unat b div 16) + unat b mod 16) :: byte) = b" by simp
  with False show ?thesis by (simp add: quoter_def h l del: of_nat_add of_nat_mult)
qed

lemma unquote_concat_quoter:
  assumes "CHR ''%'' \<notin> set safe"
  shows "unquote_to_bytes (concat (map (quoter safe) bs)) = bs"
proof (induction bs)
  case Nil
  show ?case by simp
next
  case (Cons b bs)
  then show ?case using unquote_quoter [OF assms] by simp
qed

lemma quoter_chars:
  "set (quoter safe b) \<subseteq> insert CHR ''%'' (set safe \<union> set hex_digits)"
proof (cases "b \<in> set (map byte_of_char safe)")
  case True
  then obtain c where c: "c \<in> set safe" "b = byte_of_char c" by auto
  with True show ?thesis by (simp add: quoter_def)
next
  case False
  then show ?thesis by (simp add: quoter_def hex_upper_in)
qed

lemma quote_chars:
  "set (quote s safe) \<subseteq> insert CHR ''%'' (set always_safe \<union> set safe \<union> set hex_digits)"
proof
  fix c
  assume "c \<in> set (quote s safe)"
  then obtain b where "c \<in> set (quoter (always_safe @ safe) b)"
    by (auto simp: quote_def quote_from_bytes_def)
  with quoter_chars [of "always_safe @ safe" b]
  have "c \<in> insert CHR ''%'' (set (always_safe @ safe) \<union> set hex_digits)" by blast
  then show "c \<in> insert CHR ''%'' (set always_safe \<union> set safe \<union> set hex_digits)" by simp
qed

lemma hex_digits_safe: "set hex_digits \<subseteq> set always_safe"
  by (simp add: hex_digits_def always_safe_def)

lemma always_safe_plain:
  "CHR ''%'' \<notin> set always_safe" "CHR ''+'' \<notin> set always_safe" "CHR ''&'' \<notin> set always_safe"
  "CHR ''='' \<notin> set always_safe" "CHR '' '' \<notin> set always_safe"
  by (simp_all add: always_safe_def)

lemma quote_no_plus: "CHR ''+'' \<notin> set safe \<Longrightarrow> CHR ''+'' \<notin> set (quote s safe)"
  using quote_chars [of s safe] hex_digits_safe always_safe_plain(2) by auto

lemma quote_plus_chars: "set (quote_plus s) \<subseteq> insert CHR ''%'' (insert CHR ''+'' (set always_safe))"
proof (cases "CHR '' '' \<in> set s")
  case False
  have "set (quote s []) \<subseteq> insert CHR ''%'' (set always_safe)"
    using quote_chars [of s "[]"] hex_digits_safe by auto
  with False show ?thesis by (auto simp: quote_plus_def)
next
  case True
  have "set (quote s '' '') \<subseteq> insert CHR ''%'' (insert CHR '' '' (set always_safe))"
    using quote_chars [of s "'' ''"] hex_digits_safe by auto
  with True show ?thesis by (auto simp: quote_plus_def)
qed

lemma quote_plus_no_amp: "CHR ''&'' \<notin> set (quote_plus s)"
  using quote_plus_chars [of s] always_safe_plain(3) by auto

lemma quote_plus_no_eq: "CHR ''='' \<notin> set (quote_plus s)"
  using quote_plus_chars [of s] always_safe_plain(4) by auto

lemma unat_small: "n < 256 \<Longrightarrow> unat (of_nat n :: byte) = n"
  by (simp add: unat_of_nat)

lemma utf8_decode_one:
  assumes "n < 128"
  shows "utf8_decode (of_nat n # bs) = map_option ((#) (char_of n)) (utf8_decode bs)"
proof -
  have "unat (of_nat n :: byte) = n" using assms by (simp add: unat_small)
  with assms show ?thesis by (simp add: char_of_byte_def)
qed

lemma lead_byte:
  assumes "128 \<le> n" "n < 256"
  shows "(of_nat (192 + n div 64) :: byte) = 194 \<or> (of_nat (192 + n div 64) :: byte) = 195"
proof -
  from assms have "n div 64 = 2 \<or> n div 64 = 3" by linarith
  then show ?thesis by auto
qed

lemma utf8_decode_two:
  assumes "128 \<le> n" "n < 256"
  shows "utf8_decode (of_nat (192 + n div 64) # of_nat (128 + n mod 64) # bs)
           = map_option ((#) (char_of n)) (utf8_decode bs)"
proof -
  define b1 :: byte where "b1 = of_nat (192 + n div 64)"
  define b2 :: byte where "b2 = of_nat (128 + n mod 64)"
  from assms have "192 + n div 64 < 256" by linarith
  then have u1: "unat b1 = 192 + n div 64" unfolding b1_def by (rule unat_small)
  have "128 + n mod 64 < 256" by simp
  then have u2: "unat b2 = 128 + n mod 64" unfolding b2_def by (rule unat_small)
  have l: "b1 = 194 \<or> b1 = 195" unfolding b1_def using assms by (rule lead_byte)
  have "(unat b1 - 192) * 64 + (unat b2 - 128) = n" by (simp add: u1 u2)
  moreover have "\<not> unat b1 < 128" by (simp add: u1)
  moreover have "128 \<le> unat b2" "unat b2 < 192" by (simp_all add: u2)
  ultimately have "utf8_decode (b1 # b2 # bs) = map_option ((#) (char_of n)) (utf8_decode bs)"
    using l by simp
  then show ?thesis by (simp only: b1_def b2_def)
qed

lemma utf8_char_roundtrip:
  "utf8_decode (utf8_of_char c @ bs) = map_option ((#) c) (utf8_decode bs)"
proof (cases "(of_char c :: nat) < 128")
  case True
  then show ?thesis by (simp add: utf8_of_char_def utf8_decode_one del: utf8_decode.simps)
next
  case False
  then have "128 \<le> (of_char c :: nat)" by simp
  moreover have "(of_char c :: nat) < 256" by simp
  ultimately have "utf8_decode (of_nat (192 + of_char c div 64) # of_nat (128 + of_char c mod 64) # bs)
           = map_option ((#) (char_of (of_char c :: nat))) (utf8_decode bs)"
    by (rule utf8_decode_two)
  with False show ?thesis by (simp add: utf8_of_char_def Let_def del: utf8_decode.simps of_nat_add)
qed

lemma utf8_roundtrip: "utf8_decode (str_encode_utf8 s) = Some s"
  by (induction s) (simp_all add: str_encode_utf8_def utf8_char_roundtrip del: utf8_decode.simps(2))


lemma those_map_Some: "those (map Some xs) = Some xs"
  by (induction xs) simp_all

lemma split_on_single: "sep \<notin> set a \<Longrightarrow> split_on sep a = [a]"
  by (induction a) auto

lemma split_on_append:
  "sep \<notin> set a \<Longrightarrow> split_on sep (a @ sep # rest) = a # split_on sep rest"
  by (induction a) auto

lemma split_on_join:
  assumes "fs \<noteq> []" "\<forall>f\<in>set fs. sep \<notin> set f"
  shows "split_on sep (join [sep] fs) = fs"
  using assms
proof (induction "[sep]" fs rule: join.induct)
  case 1
  then show ?case by simp
next
  case (2 x)
  then show ?case by (simp add: split_on_single)
next
  case (3 x y ys)
  then show ?case by (simp add: split_on_append)
qed

lemma map_plus_space_id:
  "CHR ''+'' \<notin> set t \<Longrightarrow> map (\<lambda>c. if c = CHR ''+'' then CHR '' '' else c) t = t"
  by (induction t) auto

lemma map_plus_space_back:
  "CHR ''+'' \<notin> set t \<Longrightarrow>
     map (\<lambda>c. if c = CHR ''+'' then CHR '' '' else c)
       (map (\<lambda>c. if c = CHR '' '' then CHR ''+'' else c) t) = t"
  by (induction t) auto

lemma unquote_quote:
  assumes "CHR ''%'' \<notin> set safe"
  shows "unquote_to_bytes (quote s safe) = str_encode_utf8 s"
proof -
  from assms always_safe_plain(1) have "CHR ''%'' \<notin> set (always_safe @ safe)" by simp
  then show ?thesis by (simp add: quote_def quote_from_bytes_def unquote_concat_quoter)
qed

lemma unquote_plus_quote_plus: "unquote_plus (quote_plus s) = Some s"
proof (cases "CHR '' '' \<in> set s")
  case False
  have "CHR ''+'' \<notin> set (quote s [])" by (rule quote_no_plus) simp
  then have "map (\<lambda>c. if c = CHR ''+'' then CHR '' '' else c) (quote s []) = quote s []"
    by (rule map_plus_space_id)
  moreover have "unquote_to_bytes (quote s []) = str_encode_utf8 s"
    by (rule unquote_quote) simp
  ultimately show ?thesis using False by (simp add: unquote_plus_def quote_plus_def utf8_roundtrip)
next
  case True
  have "CHR ''+'' \<notin> set (quote s '' '')" by (rule quote_no_plus) simp
  then have "map (\<lambda>c. if c = CHR ''+'' then CHR '' '' else c)
              (map (\<lambda>c. if c = CHR '' '' then CHR ''+'' else c) (quote s '' '')) = quote s '' ''"
    by (rule map_plus_space_back)
  moreover have "unquote_to_bytes (quote s '' '') = str_encode_utf8 s"
    by (rule unquote_quote) simp
  ultimately show ?thesis using True by (simp add: unquote_plus_def quote_plus_def utf8_roundtrip)
qed

lemma decode_field_pair:
  "decode_field (quote_plus k @ ''='' @ quote_plus v) = Some (k, v)"
proof -
  have no: "\<And>x. x \<in> set (quote_plus k) \<Longrightarrow> x \<noteq> CHR ''=''"
    using quote_plus_no_eq [of k] by auto
  have t: "takeWhile (\<lambda>c. c \<noteq> CHR ''='') (quote_plus k @ CHR ''='' # quote_plus v) = quote_plus k"
    using no by (simp add: takeWhile_append2)
  have d: "dropWhile (\<lambda>c. c \<noteq> CHR ''='') (quote_plus k @ CHR ''='' # quote_plus v)
             = CHR ''='' # quote_plus v"
    using no by (simp add: dropWhile_append2)
  show ?thesis by (simp add: decode_field_def t d unquote_plus_quote_plus)
qed

text \<open>The round trip: reading back what \<open>urlencode\<close> wrote gives the fields, in their order.\<close>

lemma decode_fields_all:
  "those (map decode_field (map (\<lambda>(k, v). quote_plus k @ ''='' @ quote_plus v) query))
     = Some query"
proof (induction query)
  case Nil
  show ?case by simp
next
  case (Cons p query)
  obtain k v where p: "p = (k, v)" by (cases p)
  have "decode_field (quote_plus k @ ''='' @ quote_plus v) = Some (k, v)"
    by (rule decode_field_pair)
  with Cons p show ?case by (simp del: append.simps)
qed

lemma form_decode_urlencode:
  assumes "query \<noteq> []"
  shows "form_decode (urlencode query) = Some query"
proof -
  let ?fs = "map (\<lambda>(k, v). quote_plus k @ ''='' @ quote_plus v) query"
  have "\<forall>f\<in>set ?fs. CHR ''&'' \<notin> set f"
    using quote_plus_no_amp by auto
  moreover from assms have "?fs \<noteq> []" by simp
  ultimately have "split_on CHR ''&'' (join ''&'' ?fs) = ?fs"
    by (intro split_on_join)
  then have "form_decode (urlencode query) = those (map decode_field ?fs)"
    by (simp only: form_decode_def urlencode_def)
  then show ?thesis by (simp only: decode_fields_all)
qed

lemma b64url_table_safe: "set b64url_table \<subseteq> set always_safe"
  by (simp add: b64url_table_def always_safe_def)

lemma b64url_table_no_space: "CHR '' '' \<notin> set b64url_table"
  by (simp add: b64url_table_def)

lemma utf8_of_ascii: "is_ascii c \<Longrightarrow> utf8_of_char c = [byte_of_char c]"
  by (simp add: utf8_of_char_def is_ascii_def byte_of_char_of_nat)

lemma quote_b64url:
  assumes "list_all is_b64url_char t"
  shows "quote t [] = t"
  using assms
proof (induction t)
  case Nil
  show ?case by (simp add: quote_def quote_from_bytes_def str_encode_utf8_def)
next
  case (Cons c t)
  then have c: "c \<in> set b64url_table" and t: "quote t [] = t"
    by (simp_all add: is_b64url_char_def)
  from c table_ascii have "is_ascii c" by (simp add: list_all_iff)
  then have u: "utf8_of_char c = [byte_of_char c]" by (rule utf8_of_ascii)
  from c b64url_table_safe have "c \<in> set always_safe" by blast
  then have "quoter always_safe (byte_of_char c) = [c]" by (simp add: quoter_def)
  with u t show ?case by (simp add: quote_def quote_from_bytes_def str_encode_utf8_def)
qed

text \<open>Text over the URL-safe alphabet goes through \<open>quote_plus\<close> unchanged.\<close>

lemma quote_plus_b64url:
  assumes "list_all is_b64url_char t"
  shows "quote_plus t = t"
proof -
  from assms b64url_table_no_space have "CHR '' '' \<notin> set t"
    by (auto simp: list_all_iff is_b64url_char_def)
  with assms show ?thesis by (simp add: quote_plus_def quote_b64url)
qed

lemma quote_plus_keys:
  "quote_plus ''client_id'' = ''client_id''"
  "quote_plus ''scope'' = ''scope''"
  "quote_plus ''redirect_uri'' = ''redirect_uri''"
  "quote_plus ''code_challenge'' = ''code_challenge''"
  "quote_plus ''code_challenge_method'' = ''code_challenge_method''"
  "quote_plus ''state'' = ''state''"
  "quote_plus ''nonce'' = ''nonce''"
  by (rule quote_plus_b64url, simp add: is_b64url_char_def b64url_table_def)+

lemma urlencode_payload_data:
  "urlencode (payload_data self challenge state nonce) =
     ''client_id='' @ quote_plus (client_id self)
     @ ''&scope='' @ quote_plus (scope self)
     @ ''&redirect_uri='' @ quote_plus (redirect_uri self)
     @ ''&code_challenge='' @ quote_plus challenge
     @ ''&code_challenge_method='' @ quote_plus (code_challenge_method self)
     @ ''&state='' @ quote_plus state
     @ ''&nonce='' @ quote_plus nonce"
  by (simp add: urlencode_def payload_data_def quote_plus_keys)

lemma byte_of_char_inj: "byte_of_char c = byte_of_char d \<Longrightarrow> c = d"
proof -
  assume "byte_of_char c = byte_of_char d"
  then have "char_of_byte (byte_of_char c) = char_of_byte (byte_of_char d)" by simp
  then show ?thesis by simp
qed

lemma quote_Nil: "quote [] safe = []"
  by (simp add: quote_def quote_from_bytes_def str_encode_utf8_def)

lemma quote_Cons_ascii:
  assumes "is_ascii c"
  shows "quote (c # s) safe =
           (if c \<in> set always_safe \<or> c \<in> set safe then [c]
            else [CHR ''%'', hex_upper (of_char c div 16), hex_upper (of_char c mod 16)])
           @ quote s safe"
proof -
  have m: "byte_of_char c \<in> set (map byte_of_char (always_safe @ safe))
             \<longleftrightarrow> c \<in> set always_safe \<or> c \<in> set safe"
    using byte_of_char_inj by auto
  have "quoter (always_safe @ safe) (byte_of_char c) =
          (if c \<in> set always_safe \<or> c \<in> set safe then [c]
            else [CHR ''%'', hex_upper (of_char c div 16), hex_upper (of_char c mod 16)])"
    unfolding quoter_def m by (simp add: unat_byte_of_char)
  then show ?thesis
    by (simp add: quote_def quote_from_bytes_def str_encode_utf8_def utf8_of_ascii [OF assms])
qed

section \<open>The whole request\<close>

lemma code_c_on_verifier:
  "PKCE_code_c self (base64url_nopad bs) =
     (if code_challenge_method self = ''S256''
      then Inr (base64url_nopad (sha256 (map byte_of_char (base64url_nopad bs))))
      else if code_challenge_method self = ''plain'' then Inr (base64url_nopad bs)
      else Inl (ValueError
                 ''Unsupported code_challenge_method. Choose either 'S256' or 'plain'.''))"
  by (simp add: PKCE_code_c_def encode_ascii_ok nopad_ascii strip_then_decode)

lemma gen_p_ok:
  assumes "32 \<le> cvl" "cvl \<le> 128"
    and "0 \<le> sl" "sl \<le> PY_SSIZE_T_MAX" "0 \<le> nl" "nl \<le> PY_SSIZE_T_MAX"
    and "PKCE_code_c self (base64url_nopad (map src [0..<nat cvl])) = Inr challenge"
  shows "PKCE_gen_p self cvl sl nl src =
           Inr ((urlencode (payload_data self challenge
                   (base64url_nopad (map (\<lambda>i. src (i + nat cvl)) [0..<nat sl]))
                   (base64url_nopad (map (\<lambda>i. src (i + nat sl + nat cvl)) [0..<nat nl]))),
                 base64url_nopad (map src [0..<nat cvl])),
                \<lambda>i. src (i + nat nl + nat sl + nat cvl))"
  using assms by (simp add: PKCE_gen_p_def code_v_ok s_ok n_ok)

lemma gen_p_Inr:
  assumes "PKCE_gen_p self cvl sl nl src = Inr ((payload, verifier), src')"
  shows "\<exists>challenge state nonce.
           PKCE_code_c self verifier = Inr challenge
           \<and> list_all is_b64url_char verifier
           \<and> list_all is_b64url_char state
           \<and> list_all is_b64url_char nonce
           \<and> (32 \<le> cvl \<and> cvl \<le> 128 \<and> 0 \<le> sl \<and> 0 \<le> nl)
           \<and> payload = urlencode (payload_data self challenge state nonce)"
proof -
  have r: "32 \<le> cvl \<and> cvl \<le> 128"
  proof (rule ccontr)
    assume "\<not> (32 \<le> cvl \<and> cvl \<le> 128)"
    then have "PKCE_gen_p self cvl sl nl src
       = Inl (ValueError ''Code verifier length must be between 43 and 128 characters.'')"
      by (simp add: PKCE_gen_p_def code_v_rejects)
    with assms show False by simp
  qed
  let ?v = "base64url_nopad (map src [0..<nat cvl])"
  let ?src1 = "\<lambda>i. src (i + nat cvl)"
  from r have v: "PKCE_code_v self cvl src = Inr (?v, ?src1)"
    by (simp add: code_v_ok)
  obtain challenge where c: "PKCE_code_c self ?v = Inr challenge"
    using assms v by (cases "PKCE_code_c self ?v") (simp_all add: PKCE_gen_p_def)
  obtain state src2 where st: "PKCE_s self sl ?src1 = Inr (state, src2)"
    using assms v c by (cases "PKCE_s self sl ?src1") (auto simp: PKCE_gen_p_def)
  obtain nonce src3 where no: "PKCE_n self nl src2 = Inr (nonce, src3)"
    using assms v c st by (cases "PKCE_n self nl src2") (auto simp: PKCE_gen_p_def)
  from s_Inr [OF st] have sl: "0 \<le> sl" and state: "list_all is_b64url_char state"
    by (simp_all add: nopad_b64url)
  from n_Inr [OF no] have nl: "0 \<le> nl" and nonce: "list_all is_b64url_char nonce"
    by (simp_all add: nopad_b64url)
  from assms v c st no
  have "payload = urlencode (payload_data self challenge state nonce)" and "verifier = ?v"
    by (simp_all add: PKCE_gen_p_def)
  with c r sl nl state nonce nopad_b64url [of "map src [0..<nat cvl]"]
  show ?thesis by blast
qed

text \<open>
  The request fails whenever the verifier length is outside its bound or the state or nonce
  length is negative, whatever else holds.
\<close>

lemma gen_p_fails:
  assumes "\<not> (32 \<le> cvl \<and> cvl \<le> 128) \<or> sl < 0 \<or> nl < 0"
  shows "\<exists>e. PKCE_gen_p self cvl sl nl src = Inl e"
proof (cases "PKCE_gen_p self cvl sl nl src")
  case (Inl e)
  then show ?thesis by blast
next
  case (Inr x)
  obtain payload verifier src' where "x = ((payload, verifier), src')"
    by (cases x) auto
  with Inr have "PKCE_gen_p self cvl sl nl src = Inr ((payload, verifier), src')" by simp
  from gen_p_Inr [OF this] have "32 \<le> cvl \<and> cvl \<le> 128 \<and> 0 \<le> sl \<and> 0 \<le> nl" by blast
  with assms show ?thesis by linarith
qed

lemma gen_p_length_error:
  "\<not> (32 \<le> cvl \<and> cvl \<le> 128) \<Longrightarrow>
     PKCE_gen_p self cvl sl nl src
       = Inl (ValueError ''Code verifier length must be between 43 and 128 characters.'')"
  by (simp add: PKCE_gen_p_def code_v_rejects)

lemma gen_p_negative_state:
  assumes "32 \<le> cvl" "cvl \<le> 128"
    and "code_challenge_method self = ''S256'' \<or> code_challenge_method self = ''plain''"
    and "- PY_SSIZE_T_MAX - 1 \<le> sl" "sl < 0"
  shows "PKCE_gen_p self cvl sl nl src = Inl (ValueError ''negative argument not allowed'')"
proof -
  from assms(3) obtain challenge where
    "PKCE_code_c self (base64url_nopad (map src [0..<nat cvl])) = Inr challenge"
    by (auto simp: code_c_on_verifier)
  with assms show ?thesis by (simp add: PKCE_gen_p_def code_v_ok s_negative)
qed

lemma gen_p_negative_nonce:
  assumes "32 \<le> cvl" "cvl \<le> 128"
    and "code_challenge_method self = ''S256'' \<or> code_challenge_method self = ''plain''"
    and "0 \<le> sl" "sl \<le> 128"
    and "- PY_SSIZE_T_MAX - 1 \<le> nl" "nl < 0"
  shows "PKCE_gen_p self cvl sl nl src = Inl (ValueError ''negative argument not allowed'')"
proof -
  from assms(3) obtain challenge where
    "PKCE_code_c self (base64url_nopad (map src [0..<nat cvl])) = Inr challenge"
    by (auto simp: code_c_on_verifier)
  with assms show ?thesis
    by (simp add: PKCE_gen_p_def code_v_ok s_ok small_fits n_negative)
qed

section \<open>A sample run, evaluated\<close>

text \<open>
  The example of RFC 7636, appendix B: the verifier made of its thirty-two octets and the
  \<open>S256\<close> challenge of that verifier. The digest is computed by the kernel from the
  definition of \<open>sha256\<close> above.
\<close>

lemma rfc7636_verifier:
  "base64url_nopad (map rfc7636_entropy [0..<32]) = ''dBjftJeZ4CVP-mB92K27uhbUJU1p1r_wW1gFWFOEjXk''"
  by code_simp

lemma rfc7636_challenge:
  "base64url_nopad (sha256 (map byte_of_char ''dBjftJeZ4CVP-mB92K27uhbUJU1p1r_wW1gFWFOEjXk''))
     = ''E9Melhoa2OwvFrEMTJguCHaoeK1t8URWbuGJSstw-cM''"
  by code_simp

lemma rfc7636_verifier_ascii: "list_all is_ascii ''dBjftJeZ4CVP-mB92K27uhbUJU1p1r_wW1gFWFOEjXk''"
  by (simp add: is_ascii_def)

lemma sample_state:
  "base64url_nopad (map (\<lambda>i. rfc7636_entropy (i + 32)) [0..<16]) = ''dBjftJeZ4CVP-mB92K27ug''"
  by code_simp

lemma sample_nonce:
  "base64url_nopad (map (\<lambda>i. rfc7636_entropy (i + 48)) [0..<16]) = ''FtQlTWnWv_BbWAVYU4SNeQ''"
  by code_simp

lemma sample_token16:
  "base64url_nopad (map rfc7636_entropy [0..<16]) = ''dBjftJeZ4CVP-mB92K27ug''"
  by code_simp

lemma sample_redirect_uri:
  "quote_plus ''https://example.com/cb'' = ''https%3A%2F%2Fexample.com%2Fcb''"
  by (simp add: quote_plus_def quote_Cons_ascii quote_Nil is_ascii_def always_safe_def
        hex_upper_def hex_digits_def)

lemma sample_scope: "quote_plus ''openid profile'' = ''openid+profile''"
  by (simp add: quote_plus_def quote_Cons_ascii quote_Nil is_ascii_def always_safe_def
        hex_upper_def hex_digits_def)

lemma sample_client_id: "quote_plus ''abc'' = ''abc''"
  by (simp add: quote_plus_def quote_Cons_ascii quote_Nil is_ascii_def always_safe_def
        hex_upper_def hex_digits_def)

lemma sample_tokens:
  "quote_plus ''E9Melhoa2OwvFrEMTJguCHaoeK1t8URWbuGJSstw-cM''
     = ''E9Melhoa2OwvFrEMTJguCHaoeK1t8URWbuGJSstw-cM''"
  "quote_plus ''dBjftJeZ4CVP-mB92K27ug'' = ''dBjftJeZ4CVP-mB92K27ug''"
  "quote_plus ''FtQlTWnWv_BbWAVYU4SNeQ'' = ''FtQlTWnWv_BbWAVYU4SNeQ''"
  "quote_plus ''S256'' = ''S256''"
  "quote_plus [] = []"
  by (rule quote_plus_b64url, simp add: is_b64url_char_def b64url_table_def)+

lemma sample_challenge:
  "PKCE_code_c (PKCE_init ''abc'' ''https://example.com/cb'' ''openid profile'' ''S256'')
       ''dBjftJeZ4CVP-mB92K27uhbUJU1p1r_wW1gFWFOEjXk''
     = Inr ''E9Melhoa2OwvFrEMTJguCHaoeK1t8URWbuGJSstw-cM''"
proof -
  let ?self = "PKCE_init ''abc'' ''https://example.com/cb'' ''openid profile'' ''S256''"
  have m: "code_challenge_method ?self = ''S256''" by (simp add: PKCE_init_def)
  show ?thesis
    unfolding code_c_S256 [OF m] rfc7636_challenge
    by (simp only: rfc7636_verifier_ascii if_True)
qed

text \<open>
  The call of the specification's end-to-end example, with the defaults \<open>S256\<close>, 32, 16
  and 16, on the sample entropy.
\<close>

lemma sample_run:
  "pkce ''abc'' ''https://example.com/cb'' ''openid profile'' ''S256'' 32 16 16 rfc7636_entropy
     = Inr ((''client_id=abc&scope=openid+profile&redirect_uri=https%3A%2F%2Fexample.com%2Fcb&code_challenge=E9Melhoa2OwvFrEMTJguCHaoeK1t8URWbuGJSstw-cM&code_challenge_method=S256&state=dBjftJeZ4CVP-mB92K27ug&nonce=FtQlTWnWv_BbWAVYU4SNeQ'',
             ''dBjftJeZ4CVP-mB92K27uhbUJU1p1r_wW1gFWFOEjXk''),
            \<lambda>i. rfc7636_entropy (i + 64))"
proof -
  let ?self = "PKCE_init ''abc'' ''https://example.com/cb'' ''openid profile'' ''S256''"
  have c: "PKCE_code_c ?self (base64url_nopad (map rfc7636_entropy [0..<nat 32]))
             = Inr ''E9Melhoa2OwvFrEMTJguCHaoeK1t8URWbuGJSstw-cM''"
    by (simp add: rfc7636_verifier sample_challenge)
  have "PKCE_gen_p ?self 32 16 16 rfc7636_entropy =
           Inr ((urlencode (payload_data ?self ''E9Melhoa2OwvFrEMTJguCHaoeK1t8URWbuGJSstw-cM''
                   (base64url_nopad (map (\<lambda>i. rfc7636_entropy (i + nat 32)) [0..<nat 16]))
                   (base64url_nopad
                      (map (\<lambda>i. rfc7636_entropy (i + nat 16 + nat 32)) [0..<nat 16]))),
                 base64url_nopad (map rfc7636_entropy [0..<nat 32])),
                \<lambda>i. rfc7636_entropy (i + nat 16 + nat 16 + nat 32))"
    by (rule gen_p_ok [OF _ _ _ _ _ _ c]) (simp_all add: PY_SSIZE_T_MAX_def)
  then have "PKCE_gen_p ?self 32 16 16 rfc7636_entropy =
           Inr ((urlencode (payload_data ?self ''E9Melhoa2OwvFrEMTJguCHaoeK1t8URWbuGJSstw-cM''
                   ''dBjftJeZ4CVP-mB92K27ug'' ''FtQlTWnWv_BbWAVYU4SNeQ''),
                 ''dBjftJeZ4CVP-mB92K27uhbUJU1p1r_wW1gFWFOEjXk''),
                \<lambda>i. rfc7636_entropy (i + 64))"
    by (simp add: rfc7636_verifier sample_state sample_nonce add.assoc)
  then show ?thesis
    by (simp add: pkce_def urlencode_payload_data PKCE_init_def sample_client_id sample_scope
          sample_redirect_uri sample_tokens)
qed

text \<open>The same call with a state length of zero: the state is empty, the call succeeds.\<close>

lemma sample_run_empty_state:
  "pkce ''abc'' ''https://example.com/cb'' ''openid profile'' ''S256'' 32 0 16 rfc7636_entropy
     = Inr ((''client_id=abc&scope=openid+profile&redirect_uri=https%3A%2F%2Fexample.com%2Fcb&code_challenge=E9Melhoa2OwvFrEMTJguCHaoeK1t8URWbuGJSstw-cM&code_challenge_method=S256&state=&nonce=dBjftJeZ4CVP-mB92K27ug'',
             ''dBjftJeZ4CVP-mB92K27uhbUJU1p1r_wW1gFWFOEjXk''),
            \<lambda>i. rfc7636_entropy (i + 48))"
proof -
  let ?self = "PKCE_init ''abc'' ''https://example.com/cb'' ''openid profile'' ''S256''"
  have c: "PKCE_code_c ?self (base64url_nopad (map rfc7636_entropy [0..<nat 32]))
             = Inr ''E9Melhoa2OwvFrEMTJguCHaoeK1t8URWbuGJSstw-cM''"
    by (simp add: rfc7636_verifier sample_challenge)
  have "PKCE_gen_p ?self 32 0 16 rfc7636_entropy =
           Inr ((urlencode (payload_data ?self ''E9Melhoa2OwvFrEMTJguCHaoeK1t8URWbuGJSstw-cM''
                   (base64url_nopad (map (\<lambda>i. rfc7636_entropy (i + nat 32)) [0..<nat 0]))
                   (base64url_nopad
                      (map (\<lambda>i. rfc7636_entropy (i + nat 0 + nat 32)) [0..<nat 16]))),
                 base64url_nopad (map rfc7636_entropy [0..<nat 32])),
                \<lambda>i. rfc7636_entropy (i + nat 16 + nat 0 + nat 32))"
    by (rule gen_p_ok [OF _ _ _ _ _ _ c]) (simp_all add: PY_SSIZE_T_MAX_def)
  then have "PKCE_gen_p ?self 32 0 16 rfc7636_entropy =
           Inr ((urlencode (payload_data ?self ''E9Melhoa2OwvFrEMTJguCHaoeK1t8URWbuGJSstw-cM''
                   [] ''dBjftJeZ4CVP-mB92K27ug''),
                 ''dBjftJeZ4CVP-mB92K27uhbUJU1p1r_wW1gFWFOEjXk''),
                \<lambda>i. rfc7636_entropy (i + 48))"
    by (simp add: rfc7636_verifier sample_state add.assoc)
  then show ?thesis
    by (simp add: pkce_def urlencode_payload_data PKCE_init_def sample_client_id sample_scope
          sample_redirect_uri sample_tokens)
qed

section \<open>The claims about challenge derivation\<close>

text \<open>
  C7. With the method \<open>plain\<close> the derived challenge is the verifier itself, unchanged, for
  every verifier string.
\<close>

theorem C7_plain_identity:
  "code_challenge_method self = ''plain'' \<Longrightarrow> PKCE_code_c self v = Inr v"
  by (simp add: PKCE_code_c_def)

theorem C7_plain_identity_witness:
  "code_challenge_method (PKCE_init ''abc'' ''https://example.com/cb'' ''openid'' ''plain'')
     = ''plain''
   \<and> PKCE_code_c (PKCE_init ''abc'' ''https://example.com/cb'' ''openid'' ''plain'')
        ''dBjftJeZ4CVP-mB92K27uhbUJU1p1r_wW1gFWFOEjXk''
      = Inr ''dBjftJeZ4CVP-mB92K27uhbUJU1p1r_wW1gFWFOEjXk''"
  using C7_plain_identity [of "PKCE_init ''abc'' ''https://example.com/cb'' ''openid'' ''plain''"
      "''dBjftJeZ4CVP-mB92K27uhbUJU1p1r_wW1gFWFOEjXk''"]
  by (simp add: PKCE_init_def)

text \<open>
  C6. With a method that is neither \<open>S256\<close> nor \<open>plain\<close> the derivation raises the
  \<^verbatim>\<open>ValueError\<close> of the unsupported method, for every verifier, and returns nothing.
\<close>

theorem C6_unsupported_method:
  "code_challenge_method self \<noteq> ''S256'' \<Longrightarrow> code_challenge_method self \<noteq> ''plain'' \<Longrightarrow>
     PKCE_code_c self v
       = Inl (ValueError ''Unsupported code_challenge_method. Choose either 'S256' or 'plain'.'')"
  by (simp add: PKCE_code_c_def)

theorem C6_unsupported_method_witness:
  "code_challenge_method (PKCE_init ''abc'' ''https://example.com/cb'' ''openid'' ''HS256'')
     \<noteq> ''S256''
   \<and> code_challenge_method (PKCE_init ''abc'' ''https://example.com/cb'' ''openid'' ''HS256'')
     \<noteq> ''plain''
   \<and> PKCE_code_c (PKCE_init ''abc'' ''https://example.com/cb'' ''openid'' ''HS256'') ''verifier''
       = Inl (ValueError ''Unsupported code_challenge_method. Choose either 'S256' or 'plain'.'')"
  using C6_unsupported_method
      [of "PKCE_init ''abc'' ''https://example.com/cb'' ''openid'' ''HS256''" "''verifier''"]
  by (simp add: PKCE_init_def)

text \<open>
  C1. With the method \<open>S256\<close> the challenge is a function of the verifier alone (the
  method draws no random bytes, so two calls with the same verifier give the same result),
  and it is the URL-safe base64 text, without the \<open>=\<close> padding, of the SHA-256 digest of
  the ASCII bytes of the verifier: whatever the call returns is that text, and for an ASCII
  verifier it does return. A verifier is ASCII text, as the claim's "ASCII bytes" say and as
  every verifier made by \<open>PKCE_code_v\<close> is; on other text \<^verbatim>\<open>encode('ascii')\<close> raises (lemma
  \<open>code_c_S256\<close>).
\<close>

theorem C1_S256_challenge:
  assumes "code_challenge_method self = ''S256''"
  shows "(\<forall>c. PKCE_code_c self v = Inr c \<longrightarrow>
             c = base64url_nopad (sha256 (map byte_of_char v)))
         \<and> (list_all is_ascii v \<longrightarrow>
             PKCE_code_c self v = Inr (base64url_nopad (sha256 (map byte_of_char v))))"
  using assms by (simp add: code_c_S256)

theorem C1_S256_challenge_witness:
  "code_challenge_method (PKCE_init ''abc'' ''https://example.com/cb'' ''openid'' ''S256'')
     = ''S256''
   \<and> list_all is_ascii ''dBjftJeZ4CVP-mB92K27uhbUJU1p1r_wW1gFWFOEjXk''
   \<and> PKCE_code_c (PKCE_init ''abc'' ''https://example.com/cb'' ''openid'' ''S256'')
        ''dBjftJeZ4CVP-mB92K27uhbUJU1p1r_wW1gFWFOEjXk''
      = Inr ''E9Melhoa2OwvFrEMTJguCHaoeK1t8URWbuGJSstw-cM''"
proof -
  let ?self = "PKCE_init ''abc'' ''https://example.com/cb'' ''openid'' ''S256''"
  let ?v = "''dBjftJeZ4CVP-mB92K27uhbUJU1p1r_wW1gFWFOEjXk''"
  have m: "code_challenge_method ?self = ''S256''" by (simp add: PKCE_init_def)
  from C1_S256_challenge [OF m, of ?v] rfc7636_verifier_ascii
  have "PKCE_code_c ?self ?v = Inr (base64url_nopad (sha256 (map byte_of_char ?v)))"
    by blast
  then have "PKCE_code_c ?self ?v = Inr ''E9Melhoa2OwvFrEMTJguCHaoeK1t8URWbuGJSstw-cM''"
    by (simp only: rfc7636_challenge)
  with m rfc7636_verifier_ascii show ?thesis by blast
qed

text \<open>
  C10. With the method \<open>S256\<close> every challenge has exactly 43 characters, whatever the
  length of the verifier: the digest has 32 bytes, and 32 bytes give 43 digits. Whatever
  the call returns has that length, and for an ASCII verifier it does return.
\<close>

theorem C10_S256_challenge_length:
  assumes "code_challenge_method self = ''S256''"
  shows "(\<forall>c. PKCE_code_c self v = Inr c \<longrightarrow> length c = 43)
         \<and> (list_all is_ascii v \<longrightarrow> (\<exists>c. PKCE_code_c self v = Inr c \<and> length c = 43))"
  using assms by (auto simp: code_c_S256 nopad_length sha256_length)

theorem C10_S256_challenge_length_witness:
  "code_challenge_method (PKCE_init ''abc'' ''https://example.com/cb'' ''openid'' ''S256'')
     = ''S256''
   \<and> list_all is_ascii ''a-much-longer-verifier-than-the-others-with-sixty-four-characters''
   \<and> (\<exists>c. PKCE_code_c (PKCE_init ''abc'' ''https://example.com/cb'' ''openid'' ''S256'')
             ''a-much-longer-verifier-than-the-others-with-sixty-four-characters'' = Inr c
          \<and> length c = 43)"
  using C10_S256_challenge_length
    [of "PKCE_init ''abc'' ''https://example.com/cb'' ''openid'' ''S256''"
        "''a-much-longer-verifier-than-the-others-with-sixty-four-characters''"]
  by (simp add: PKCE_init_def is_ascii_def)

section \<open>The claims about the generated secrets\<close>

text \<open>
  C2. Generating the code verifier raises the \<^verbatim>\<open>ValueError\<close> of the length check exactly
  when the requested length is outside 32 to 128: inside the bound a verifier is returned,
  outside it the error. The entry point called with a length of 10 or of 200 fails with
  that error, whatever its other arguments.
\<close>

theorem C2_verifier_length_bound:
  "(if 32 \<le> n \<and> n \<le> 128 then \<exists>v src'. PKCE_code_v self n src = Inr (v, src')
    else PKCE_code_v self n src
           = Inl (ValueError ''Code verifier length must be between 43 and 128 characters.''))
   \<and> pkce cid ruri sc m 10 sl nl src
       = Inl (ValueError ''Code verifier length must be between 43 and 128 characters.'')
   \<and> pkce cid ruri sc m 200 sl nl src
       = Inl (ValueError ''Code verifier length must be between 43 and 128 characters.'')"
  by (simp add: code_v_ok code_v_rejects pkce_def PKCE_gen_p_def)

lemma code_v_length:
  assumes "32 \<le> n" "n \<le> 128" "PKCE_code_v self n src = Inr (v, src')"
  shows "length v = (4 * nat n + 2) div 3"
  using assms by (auto simp: code_v_ok nopad_length)

text \<open>
  C4. The claim is that every accepted length gives a verifier of 43 to 128 characters, as
  the module's documentation and the message of the length check say. The check bounds the
  number of random bytes, not of characters: \<open>n\<close> bytes give \<open>(4 n + 2) div 3\<close>
  characters, so the accepted length 128 gives a verifier of 171 characters.
\<close>

theorem C4_verifier_too_long:
  "\<exists>v src'. PKCE_code_v self 128 src = Inr (v, src') \<and> length v = 171"
  by (simp add: code_v_ok nopad_length)

lemma code_v_Inr:
  assumes "PKCE_code_v self n src = Inr (v, src')"
  shows "v = base64url_nopad (map src [0..<nat n])"
proof (cases "32 \<le> n \<and> n \<le> 128")
  case True
  with assms show ?thesis by (simp add: code_v_ok)
next
  case False
  with assms show ?thesis by (simp add: code_v_rejects)
qed

text \<open>
  C8. Whatever the code verifier, the state and the nonce generators return, for any length,
  consists of characters of the URL-safe base64 alphabet only, with no \<open>=\<close> among them;
  and they do return: the code verifier for every length from 32 to 128, the state and the
  nonce for every positive length up to 128 (beyond that the result depends on the memory
  of the machine, and from \<open>2 ^ 63\<close> on \<^verbatim>\<open>os.urandom\<close> refuses the length).
\<close>

theorem C8_secrets_alphabet:
  "(\<forall>v src'. PKCE_code_v self n src = Inr (v, src') \<longrightarrow>
        list_all is_b64url_char v \<and> CHR ''='' \<notin> set v)
   \<and> (\<forall>t src'. PKCE_s self n src = Inr (t, src') \<longrightarrow>
        list_all is_b64url_char t \<and> CHR ''='' \<notin> set t)
   \<and> (\<forall>t src'. PKCE_n self n src = Inr (t, src') \<longrightarrow>
        list_all is_b64url_char t \<and> CHR ''='' \<notin> set t)
   \<and> (32 \<le> n \<and> n \<le> 128 \<longrightarrow> (\<exists>v src'. PKCE_code_v self n src = Inr (v, src')))
   \<and> (0 < n \<and> n \<le> 128 \<longrightarrow>
        (\<exists>t src'. PKCE_s self n src = Inr (t, src'))
        \<and> (\<exists>t src'. PKCE_n self n src = Inr (t, src')))"
proof (intro conjI allI impI)
  fix v src'
  assume "PKCE_code_v self n src = Inr (v, src')"
  then have v: "v = base64url_nopad (map src [0..<nat n])" by (rule code_v_Inr)
  show "list_all is_b64url_char v" unfolding v by (rule nopad_b64url)
  show "CHR ''='' \<notin> set v" unfolding v by (rule nopad_no_pad)
next
  fix t src'
  assume "PKCE_s self n src = Inr (t, src')"
  from s_Inr [OF this] have t: "t = base64url_nopad (map src [0..<nat n])" by simp
  show "list_all is_b64url_char t" unfolding t by (rule nopad_b64url)
  show "CHR ''='' \<notin> set t" unfolding t by (rule nopad_no_pad)
next
  fix t src'
  assume "PKCE_n self n src = Inr (t, src')"
  from n_Inr [OF this] have t: "t = base64url_nopad (map src [0..<nat n])" by simp
  show "list_all is_b64url_char t" unfolding t by (rule nopad_b64url)
  show "CHR ''='' \<notin> set t" unfolding t by (rule nopad_no_pad)
next
  assume "32 \<le> n \<and> n \<le> 128"
  then show "\<exists>v src'. PKCE_code_v self n src = Inr (v, src')" by (simp add: code_v_ok)
next
  assume "0 < n \<and> n \<le> 128"
  then show "\<exists>t src'. PKCE_s self n src = Inr (t, src')" by (simp add: s_ok small_fits)
next
  assume "0 < n \<and> n \<le> 128"
  then show "\<exists>t src'. PKCE_n self n src = Inr (t, src')" by (simp add: n_ok small_fits)
qed

theorem C8_secrets_alphabet_witness:
  "(32::int) \<le> 32 \<and> (32::int) \<le> 128 \<and> (0::int) < 32
   \<and> PKCE_code_v (PKCE_init ''abc'' ''https://example.com/cb'' ''openid'' ''S256'')
         32 rfc7636_entropy
       = Inr (''dBjftJeZ4CVP-mB92K27uhbUJU1p1r_wW1gFWFOEjXk'', \<lambda>i. rfc7636_entropy (i + 32))
   \<and> list_all is_b64url_char ''dBjftJeZ4CVP-mB92K27uhbUJU1p1r_wW1gFWFOEjXk''
   \<and> CHR ''='' \<notin> set ''dBjftJeZ4CVP-mB92K27uhbUJU1p1r_wW1gFWFOEjXk''
   \<and> (\<exists>t src'. PKCE_s (PKCE_init ''abc'' ''https://example.com/cb'' ''openid'' ''S256'')
                  32 rfc7636_entropy = Inr (t, src'))
   \<and> (\<exists>t src'. PKCE_n (PKCE_init ''abc'' ''https://example.com/cb'' ''openid'' ''S256'')
                  32 rfc7636_entropy = Inr (t, src'))"
proof -
  let ?self = "PKCE_init ''abc'' ''https://example.com/cb'' ''openid'' ''S256''"
  have run: "PKCE_code_v ?self 32 rfc7636_entropy
       = Inr (''dBjftJeZ4CVP-mB92K27uhbUJU1p1r_wW1gFWFOEjXk'', \<lambda>i. rfc7636_entropy (i + 32))"
    by (simp add: code_v_ok rfc7636_verifier)
  from C8_secrets_alphabet [of ?self 32 rfc7636_entropy] run
  have "list_all is_b64url_char ''dBjftJeZ4CVP-mB92K27uhbUJU1p1r_wW1gFWFOEjXk''
        \<and> CHR ''='' \<notin> set ''dBjftJeZ4CVP-mB92K27uhbUJU1p1r_wW1gFWFOEjXk''"
    by blast
  moreover from C8_secrets_alphabet [of ?self 32 rfc7636_entropy]
  have "(\<exists>t src'. PKCE_s ?self 32 rfc7636_entropy = Inr (t, src'))
        \<and> (\<exists>t src'. PKCE_n ?self 32 rfc7636_entropy = Inr (t, src'))"
    by simp
  ultimately show ?thesis using run by simp
qed

section \<open>The claims about the whole request\<close>

text \<open>
  C9. The payload of a successful call is the form encoding of the seven fields in the order
  \<open>client_id\<close>, \<open>scope\<close>, \<open>redirect_uri\<close>, \<open>code_challenge\<close>, \<open>code_challenge_method\<close>,
  \<open>state\<close>, \<open>nonce\<close>: it is the seven \<open>key=value\<close> texts joined by \<open>&\<close>, the caller's
  values percent-encoded by \<open>quote_plus\<close> and the generated ones, which need no escaping, as
  they are; and reading the payload back gives exactly these fields, in this order, with
  the unencoded values.
\<close>

theorem C9_payload_serialization:
  assumes "pkce cid ruri sc m cvl sl nl src = Inr ((payload, verifier), src')"
  shows "\<exists>challenge state nonce.
           payload =
             ''client_id='' @ quote_plus cid
             @ ''&scope='' @ quote_plus sc
             @ ''&redirect_uri='' @ quote_plus ruri
             @ ''&code_challenge='' @ challenge
             @ ''&code_challenge_method='' @ quote_plus m
             @ ''&state='' @ state
             @ ''&nonce='' @ nonce
           \<and> form_decode payload =
               Some [(''client_id'', cid), (''scope'', sc), (''redirect_uri'', ruri),
                     (''code_challenge'', challenge), (''code_challenge_method'', m),
                     (''state'', state), (''nonce'', nonce)]
           \<and> PKCE_code_c (PKCE_init cid ruri sc m) verifier = Inr challenge
           \<and> list_all is_b64url_char state \<and> list_all is_b64url_char nonce"
proof -
  let ?self = "PKCE_init cid ruri sc m"
  from assms have "PKCE_gen_p ?self cvl sl nl src = Inr ((payload, verifier), src')"
    by (simp add: pkce_def)
  then obtain challenge state nonce where
    c: "PKCE_code_c ?self verifier = Inr challenge"
    and v: "list_all is_b64url_char verifier"
    and s: "list_all is_b64url_char state" and n: "list_all is_b64url_char nonce"
    and p: "payload = urlencode (payload_data ?self challenge state nonce)"
    using gen_p_Inr by blast
  have qc: "quote_plus challenge = challenge"
  proof (cases "code_challenge_method ?self = ''S256''")
    case True
    with c obtain bs where "challenge = base64url_nopad bs"
      by (auto simp: code_c_S256 split: if_splits)
    then show ?thesis by (simp add: quote_plus_b64url nopad_b64url)
  next
    case False
    with c have "challenge = verifier" by (simp add: PKCE_code_c_def split: if_splits)
    with v show ?thesis by (simp add: quote_plus_b64url)
  qed
  have shape: "payload =
             ''client_id='' @ quote_plus cid
             @ ''&scope='' @ quote_plus sc
             @ ''&redirect_uri='' @ quote_plus ruri
             @ ''&code_challenge='' @ challenge
             @ ''&code_challenge_method='' @ quote_plus m
             @ ''&state='' @ state
             @ ''&nonce='' @ nonce"
    using p qc s n
    by (simp only: urlencode_payload_data quote_plus_b64url) (simp add: PKCE_init_def)
  have "form_decode payload = Some (payload_data ?self challenge state nonce)"
    unfolding p by (rule form_decode_urlencode) (simp add: payload_data_def)
  then have decoded: "form_decode payload =
               Some [(''client_id'', cid), (''scope'', sc), (''redirect_uri'', ruri),
                     (''code_challenge'', challenge), (''code_challenge_method'', m),
                     (''state'', state), (''nonce'', nonce)]"
    by (simp add: payload_data_def PKCE_init_def)
  from shape decoded c s n show ?thesis by blast
qed

theorem C9_payload_serialization_witness:
  "pkce ''abc'' ''https://example.com/cb'' ''openid profile'' ''S256'' 32 16 16 rfc7636_entropy
     = Inr ((''client_id=abc&scope=openid+profile&redirect_uri=https%3A%2F%2Fexample.com%2Fcb&code_challenge=E9Melhoa2OwvFrEMTJguCHaoeK1t8URWbuGJSstw-cM&code_challenge_method=S256&state=dBjftJeZ4CVP-mB92K27ug&nonce=FtQlTWnWv_BbWAVYU4SNeQ'',
             ''dBjftJeZ4CVP-mB92K27uhbUJU1p1r_wW1gFWFOEjXk''),
            \<lambda>i. rfc7636_entropy (i + 64))
   \<and> (\<exists>challenge state nonce.
         ''client_id=abc&scope=openid+profile&redirect_uri=https%3A%2F%2Fexample.com%2Fcb&code_challenge=E9Melhoa2OwvFrEMTJguCHaoeK1t8URWbuGJSstw-cM&code_challenge_method=S256&state=dBjftJeZ4CVP-mB92K27ug&nonce=FtQlTWnWv_BbWAVYU4SNeQ'' =
             ''client_id='' @ quote_plus ''abc''
             @ ''&scope='' @ quote_plus ''openid profile''
             @ ''&redirect_uri='' @ quote_plus ''https://example.com/cb''
             @ ''&code_challenge='' @ challenge
             @ ''&code_challenge_method='' @ quote_plus ''S256''
             @ ''&state='' @ state
             @ ''&nonce='' @ nonce
         \<and> form_decode ''client_id=abc&scope=openid+profile&redirect_uri=https%3A%2F%2Fexample.com%2Fcb&code_challenge=E9Melhoa2OwvFrEMTJguCHaoeK1t8URWbuGJSstw-cM&code_challenge_method=S256&state=dBjftJeZ4CVP-mB92K27ug&nonce=FtQlTWnWv_BbWAVYU4SNeQ'' =
               Some [(''client_id'', ''abc''), (''scope'', ''openid profile''),
                     (''redirect_uri'', ''https://example.com/cb''),
                     (''code_challenge'', challenge), (''code_challenge_method'', ''S256''),
                     (''state'', state), (''nonce'', nonce)]
         \<and> PKCE_code_c (PKCE_init ''abc'' ''https://example.com/cb'' ''openid profile'' ''S256'')
              ''dBjftJeZ4CVP-mB92K27uhbUJU1p1r_wW1gFWFOEjXk'' = Inr challenge
         \<and> list_all is_b64url_char state \<and> list_all is_b64url_char nonce)"
  by (rule conjI [OF sample_run C9_payload_serialization [OF sample_run]])

text \<open>
  C3. Round trip: after a successful call, deriving the challenge from the returned verifier
  with the configured method succeeds, and its result is the value of the field
  \<open>code_challenge\<close> read back from the returned payload.
\<close>

theorem C3_round_trip:
  assumes "pkce cid ruri sc m cvl sl nl src = Inr ((payload, verifier), src')"
  shows "\<exists>challenge fields.
           PKCE_code_c (PKCE_init cid ruri sc m) verifier = Inr challenge
           \<and> form_decode payload = Some fields
           \<and> map_of fields ''code_challenge'' = Some challenge"
proof -
  let ?self = "PKCE_init cid ruri sc m"
  from assms have "PKCE_gen_p ?self cvl sl nl src = Inr ((payload, verifier), src')"
    by (simp add: pkce_def)
  then obtain challenge state nonce where
    c: "PKCE_code_c ?self verifier = Inr challenge"
    and p: "payload = urlencode (payload_data ?self challenge state nonce)"
    using gen_p_Inr by blast
  have "form_decode payload = Some (payload_data ?self challenge state nonce)"
    unfolding p by (rule form_decode_urlencode) (simp add: payload_data_def)
  moreover have "map_of (payload_data ?self challenge state nonce) ''code_challenge''
                   = Some challenge"
    by (simp add: payload_data_def)
  ultimately show ?thesis using c by blast
qed

theorem C3_round_trip_witness:
  "pkce ''abc'' ''https://example.com/cb'' ''openid profile'' ''S256'' 32 16 16 rfc7636_entropy
     = Inr ((''client_id=abc&scope=openid+profile&redirect_uri=https%3A%2F%2Fexample.com%2Fcb&code_challenge=E9Melhoa2OwvFrEMTJguCHaoeK1t8URWbuGJSstw-cM&code_challenge_method=S256&state=dBjftJeZ4CVP-mB92K27ug&nonce=FtQlTWnWv_BbWAVYU4SNeQ'',
             ''dBjftJeZ4CVP-mB92K27uhbUJU1p1r_wW1gFWFOEjXk''),
            \<lambda>i. rfc7636_entropy (i + 64))
   \<and> (\<exists>challenge fields.
         PKCE_code_c (PKCE_init ''abc'' ''https://example.com/cb'' ''openid profile'' ''S256'')
           ''dBjftJeZ4CVP-mB92K27uhbUJU1p1r_wW1gFWFOEjXk'' = Inr challenge
         \<and> form_decode ''client_id=abc&scope=openid+profile&redirect_uri=https%3A%2F%2Fexample.com%2Fcb&code_challenge=E9Melhoa2OwvFrEMTJguCHaoeK1t8URWbuGJSstw-cM&code_challenge_method=S256&state=dBjftJeZ4CVP-mB92K27ug&nonce=FtQlTWnWv_BbWAVYU4SNeQ''
             = Some fields
         \<and> map_of fields ''code_challenge'' = Some challenge)"
  by (rule conjI [OF sample_run C3_round_trip [OF sample_run]])

text \<open>
  The entry point called with a state length of zero, the other arguments as in the sample
  run: the call succeeds, and the state in the payload is empty.
\<close>

theorem C5_zero_state_length_accepted:
  "returned (pkce ''abc'' ''https://example.com/cb'' ''openid profile'' ''S256'' 32 0 16
               rfc7636_entropy)
     = Inr (''client_id=abc&scope=openid+profile&redirect_uri=https%3A%2F%2Fexample.com%2Fcb&code_challenge=E9Melhoa2OwvFrEMTJguCHaoeK1t8URWbuGJSstw-cM&code_challenge_method=S256&state=&nonce=dBjftJeZ4CVP-mB92K27ug'',
            ''dBjftJeZ4CVP-mB92K27uhbUJU1p1r_wW1gFWFOEjXk'')"
  by (simp only: sample_run_empty_state returned_def) simp

text \<open>
  C5. The claim is that a requested length that is not positive always makes the entry point
  raise. For the code verifier it does, through the bound 32 to 128. For the state and the
  nonce the class checks nothing: a negative length raises inside \<^verbatim>\<open>os.urandom\<close>, a length
  of zero is accepted, as the call above shows. What holds: a verifier length that is not
  positive raises the \<^verbatim>\<open>ValueError\<close> of the length check; a negative state or nonce length
  makes the call fail, whatever the other arguments; and that failure is the \<^verbatim>\<open>ValueError\<close>
  of \<^verbatim>\<open>os.urandom\<close> when nothing fails before it (a verifier length inside the bound, a
  supported method and, for the nonce, a state length from 0 to 128) and the negative
  length fits a 64-bit \<^verbatim>\<open>ssize_t\<close>.
\<close>

theorem C5_rejected_lengths:
  "(cvl \<le> 0 \<longrightarrow>
      pkce cid ruri sc m cvl sl nl src
        = Inl (ValueError ''Code verifier length must be between 43 and 128 characters.''))
   \<and> (sl < 0 \<or> nl < 0 \<longrightarrow> (\<exists>e. pkce cid ruri sc m cvl sl nl src = Inl e))
   \<and> (32 \<le> cvl \<and> cvl \<le> 128 \<and> (m = ''S256'' \<or> m = ''plain'')
        \<and> - PY_SSIZE_T_MAX - 1 \<le> sl \<and> sl < 0 \<longrightarrow>
      pkce cid ruri sc m cvl sl nl src = Inl (ValueError ''negative argument not allowed''))
   \<and> (32 \<le> cvl \<and> cvl \<le> 128 \<and> (m = ''S256'' \<or> m = ''plain'')
        \<and> 0 \<le> sl \<and> sl \<le> 128 \<and> - PY_SSIZE_T_MAX - 1 \<le> nl \<and> nl < 0 \<longrightarrow>
      pkce cid ruri sc m cvl sl nl src = Inl (ValueError ''negative argument not allowed''))"
proof (intro conjI impI)
  assume "cvl \<le> 0"
  then have "\<not> (32 \<le> cvl \<and> cvl \<le> 128)" by simp
  then show "pkce cid ruri sc m cvl sl nl src
        = Inl (ValueError ''Code verifier length must be between 43 and 128 characters.'')"
    unfolding pkce_def by (rule gen_p_length_error)
next
  assume "sl < 0 \<or> nl < 0"
  then have "\<not> (32 \<le> cvl \<and> cvl \<le> 128) \<or> sl < 0 \<or> nl < 0" by simp
  then show "\<exists>e. pkce cid ruri sc m cvl sl nl src = Inl e"
    unfolding pkce_def by (rule gen_p_fails)
next
  assume "32 \<le> cvl \<and> cvl \<le> 128 \<and> (m = ''S256'' \<or> m = ''plain'')
        \<and> - PY_SSIZE_T_MAX - 1 \<le> sl \<and> sl < 0"
  then show "pkce cid ruri sc m cvl sl nl src = Inl (ValueError ''negative argument not allowed'')"
    unfolding pkce_def by (intro gen_p_negative_state) (simp_all add: PKCE_init_def)
next
  assume "32 \<le> cvl \<and> cvl \<le> 128 \<and> (m = ''S256'' \<or> m = ''plain'')
        \<and> 0 \<le> sl \<and> sl \<le> 128 \<and> - PY_SSIZE_T_MAX - 1 \<le> nl \<and> nl < 0"
  then show "pkce cid ruri sc m cvl sl nl src = Inl (ValueError ''negative argument not allowed'')"
    unfolding pkce_def by (intro gen_p_negative_nonce) (simp_all add: PKCE_init_def)
qed

theorem C5_rejected_lengths_witness:
  "(0::int) \<le> 0
   \<and> pkce ''abc'' ''https://example.com/cb'' ''openid profile'' ''S256'' 0 16 16 rfc7636_entropy
       = Inl (ValueError ''Code verifier length must be between 43 and 128 characters.'')
   \<and> (- 1 :: int) < 0 \<and> - PY_SSIZE_T_MAX - 1 \<le> - 1
   \<and> (\<exists>e. pkce ''abc'' ''https://example.com/cb'' ''openid profile'' ''S256'' 32 (- 1) 16
             rfc7636_entropy = Inl e)
   \<and> pkce ''abc'' ''https://example.com/cb'' ''openid profile'' ''S256'' 32 (- 1) 16
         rfc7636_entropy = Inl (ValueError ''negative argument not allowed'')
   \<and> pkce ''abc'' ''https://example.com/cb'' ''openid profile'' ''S256'' 32 16 (- 1)
         rfc7636_entropy = Inl (ValueError ''negative argument not allowed'')"
  using C5_rejected_lengths [of 0 "''abc''" "''https://example.com/cb''" "''openid profile''"
          "''S256''" 16 16 rfc7636_entropy]
        C5_rejected_lengths [of 32 "''abc''" "''https://example.com/cb''" "''openid profile''"
          "''S256''" "- 1" 16 rfc7636_entropy]
        C5_rejected_lengths [of 32 "''abc''" "''https://example.com/cb''" "''openid profile''"
          "''S256''" 16 "- 1" rfc7636_entropy]
  by (simp add: PY_SSIZE_T_MAX_def)

end
